theory Spec2Isabelle
  imports Complex_Main "HOL-Library.List_Lexorder" "HOL-Library.Char_ord"
begin

section \<open>Python values\<close>

text \<open>
  The curator (\<^verbatim>\<open>app8.py\<close>, and its earlier copy \<^verbatim>\<open>app7.py\<close>) works on what
  \<^verbatim>\<open>yaml.safe_load\<close> produces and on what the widgets return: \<^verbatim>\<open>None\<close>, booleans,
  integers, floats, strings, lists and dicts. A dict is an association list in insertion
  order; it stands for a Python dict when its keys are distinct. Keys are strings (YAML
  mappings with other keys are not covered). A float is carried as a real number: the
  program never computes with one, it only stores and compares it.
\<close>

datatype pyval =
    PNone
  | PBool bool
  | PInt int
  | PFloat real
  | PStr string
  | PList "pyval list"
  | PDict "(string \<times> pyval) list"

text \<open>
  The exceptions the modelled statements can raise. The last is the toolkit's
  \<^verbatim>\<open>StreamlitDuplicateElementKey\<close>.
\<close>

datatype exn = AttributeError | KeyError | TypeError | OSError | YAMLError | DuplicateElementKey

text \<open>Truth value of an object, as \<^verbatim>\<open>if x\<close>, \<^verbatim>\<open>x or y\<close> and \<^verbatim>\<open>not x\<close> take it.\<close>

fun truthy :: "pyval \<Rightarrow> bool" where
  "truthy PNone = False"
| "truthy (PBool b) = b"
| "truthy (PInt i) = (i \<noteq> 0)"
| "truthy (PFloat r) = (r \<noteq> 0)"
| "truthy (PStr s) = (s \<noteq> [])"
| "truthy (PList xs) = (xs \<noteq> [])"
| "truthy (PDict kvs) = (kvs \<noteq> [])"

definition py_or :: "pyval \<Rightarrow> pyval \<Rightarrow> pyval" where
  "py_or a b = (if truthy a then a else b)"

text \<open>
  \<^verbatim>\<open>val in ("", None)\<close>: the test every collecting loop uses to leave a value out.
  No number, list or dict compares equal to \<^verbatim>\<open>""\<close> or \<^verbatim>\<open>None\<close>.
\<close>

definition omitted :: "pyval \<Rightarrow> bool" where
  "omitted v \<longleftrightarrow> v = PStr [] \<or> v = PNone"

text \<open>\<^verbatim>\<open>d.get(k, default)\<close>: only a dict has the method.\<close>

fun py_get :: "pyval \<Rightarrow> string \<Rightarrow> pyval \<Rightarrow> exn + pyval" where
  "py_get (PDict kvs) k d = Inr (case map_of kvs k of Some v \<Rightarrow> v | None \<Rightarrow> d)"
| "py_get _ k d = Inl AttributeError"

text \<open>\<^verbatim>\<open>d.items()\<close>.\<close>

fun py_items :: "pyval \<Rightarrow> exn + (string \<times> pyval) list" where
  "py_items (PDict kvs) = Inr kvs"
| "py_items _ = Inl AttributeError"

text \<open>\<^verbatim>\<open>d[k]\<close> for a string \<^verbatim>\<open>k\<close>: a missing key raises KeyError; a list, a string, a
  number or \<^verbatim>\<open>None\<close> indexed by a string raises TypeError.\<close>

fun py_subscript :: "pyval \<Rightarrow> string \<Rightarrow> exn + pyval" where
  "py_subscript (PDict kvs) k = (case map_of kvs k of Some v \<Rightarrow> Inr v | None \<Rightarrow> Inl KeyError)"
| "py_subscript _ k = Inl TypeError"

text \<open>\<^verbatim>\<open>d[k] = v\<close>: an existing key keeps its position, a new key goes last.\<close>

fun dict_set :: "(string \<times> pyval) list \<Rightarrow> string \<Rightarrow> pyval \<Rightarrow> (string \<times> pyval) list" where
  "dict_set [] k v = [(k, v)]"
| "dict_set ((k', v') # kvs) k v =
     (if k' = k then (k, v) # kvs else (k', v') # dict_set kvs k v)"

text \<open>Decimal digits of a number, as an f-string prints an index.\<close>

fun str_of_nat :: "nat \<Rightarrow> string" where
  "str_of_nat n =
     (if n < 10 then [''0123456789'' ! n]
      else str_of_nat (n div 10) @ [''0123456789'' ! (n mod 10)])"

declare str_of_nat.simps [simp del]

section \<open>The world outside: files and the session\<close>

text \<open>
  The file system as the program observes it: \<^verbatim>\<open>Path.exists\<close>, which answers or
  raises (a name too long for the system, a directory that may not be searched); the
  stems of \<^verbatim>\<open>directory.glob("*.yaml")\<close> in the order the system lists them; the names
  of the sub-directories \<^verbatim>\<open>iterdir\<close> yields (\<open>None\<close> when the listing raises); and what
  \<^verbatim>\<open>yaml.safe_load(open(path))\<close> gives, a parsed value or the exception of \<^verbatim>\<open>open\<close>
  or of the parser. Paths are the strings \<^verbatim>\<open>Path\<close> prints.
\<close>

record filesystem =
  path_exists :: "string \<Rightarrow> exn + bool"
  yaml_stems :: "string \<Rightarrow> string list"
  subdir_names :: "string \<Rightarrow> string list option"
  yaml_content :: "string \<Rightarrow> exn + pyval"

text \<open>
  The session of the widget toolkit, the only thing that survives from one run of the
  script to the next: what the user typed or chose under each widget key, the buttons
  pressed for this run, and the lists the script itself keeps in
  \<^verbatim>\<open>st.session_state\<close>. Those lists only ever receive \<^verbatim>\<open>{}\<close>, and only their length is
  read, so a list is stored as its length. A widget created without \<^verbatim>\<open>key=\<close> is
  identified by its label. The last field is the only one that does not survive: the
  keys the current run has used so far, none when a run starts.
\<close>

record session =
  text_values :: "string \<rightharpoonup> string"
  int_values :: "string \<rightharpoonup> int"
  float_values :: "string \<rightharpoonup> real"
  choices :: "string \<rightharpoonup> pyval"
  multi_choices :: "string \<rightharpoonup> pyval list"
  entry_lists :: "string \<rightharpoonup> nat"
  clicked :: "string list"
  run_keys :: "string list"

text \<open>
  Every widget created with \<^verbatim>\<open>key=\<close> takes its key for the run; a second widget with
  the same key in the same run raises. A list the script stores under a key of
  \<^verbatim>\<open>st.session_state\<close> shares that name space: the same step is taken for it, so that a
  run in which a stored list and a widget, or two stored lists, meet on one key ends
  here with the error and nothing is stated about it. The widgets without a key (the
  save buttons, everything in the assertions tab) are told apart by kind and label,
  which differ wherever two of them are created in one run.
\<close>

definition claim_key :: "session \<Rightarrow> string \<Rightarrow> exn + session" where
  "claim_key s key =
     (if key \<in> set (run_keys s) then Inl DuplicateElementKey
      else Inr (s\<lparr>run_keys := key # run_keys s\<rparr>))"

text \<open>A widget with a key: it takes the key, then returns its value.\<close>

definition keyed :: "session \<Rightarrow> string \<Rightarrow> 'a \<Rightarrow> exn + ('a \<times> session)" where
  "keyed s key v = (case claim_key s key of Inl e \<Rightarrow> Inl e | Inr s' \<Rightarrow> Inr (v, s'))"

text \<open>\<^verbatim>\<open>st.text_input\<close>: the text typed, \<^verbatim>\<open>""\<close> when nothing was.\<close>

definition text_input :: "session \<Rightarrow> string \<Rightarrow> string" where
  "text_input s key = (case text_values s key of Some t \<Rightarrow> t | None \<Rightarrow> [])"

text \<open>
  \<^verbatim>\<open>st.number_input\<close> called without \<^verbatim>\<open>value=\<close>, as the program always calls it: the
  widget starts at its default, 0 with \<^verbatim>\<open>step=1\<close> and 0.0 without, and returns a number
  on every run. It returns \<^verbatim>\<open>None\<close> only when created with \<^verbatim>\<open>value=None\<close>. An integer
  input holds integers of magnitude up to \<open>2\<^sup>5\<^sup>3 - 1\<close>; beyond that it is back at
  its default.
\<close>

definition INT_BOUND :: int where
  "INT_BOUND = 2 ^ 53 - 1"

definition number_input_int :: "session \<Rightarrow> string \<Rightarrow> int" where
  "number_input_int s key =
     (case int_values s key of
        Some n \<Rightarrow> if - INT_BOUND \<le> n \<and> n \<le> INT_BOUND then n else 0
      | None \<Rightarrow> 0)"

definition number_input_float :: "session \<Rightarrow> string \<Rightarrow> real" where
  "number_input_float s key = (case float_values s key of Some r \<Rightarrow> r | None \<Rightarrow> 0)"

text \<open>
  The options a choice widget makes of its argument: a list gives its elements, a dict
  its keys, \<^verbatim>\<open>None\<close> nothing, a single scalar itself.
\<close>

fun option_seq :: "pyval \<Rightarrow> pyval list" where
  "option_seq (PList xs) = xs"
| "option_seq (PDict kvs) = map (PStr \<circ> fst) kvs"
| "option_seq PNone = []"
| "option_seq v = [v]"

text \<open>
  \<^verbatim>\<open>st.selectbox\<close>: the option chosen; the first option when nothing (or something no
  longer offered) was chosen; \<^verbatim>\<open>None\<close> when there are no options.
\<close>

definition selectbox :: "session \<Rightarrow> pyval \<Rightarrow> string \<Rightarrow> pyval" where
  "selectbox s options key =
     (case option_seq options of
        [] \<Rightarrow> PNone
      | d # ds \<Rightarrow>
          (case choices s key of
             Some v \<Rightarrow> if v \<in> set (d # ds) then v else d
           | None \<Rightarrow> d))"

text \<open>\<^verbatim>\<open>st.multiselect\<close>: the chosen options that are still offered; none by default.\<close>

definition multiselect :: "session \<Rightarrow> string \<Rightarrow> pyval \<Rightarrow> pyval list" where
  "multiselect s key options =
     (case multi_choices s key of
        Some vs \<Rightarrow> filter (\<lambda>v. v \<in> set (option_seq options)) vs
      | None \<Rightarrow> [])"

text \<open>\<^verbatim>\<open>st.button\<close>: true in the run its press started.\<close>

definition button :: "session \<Rightarrow> string \<Rightarrow> bool" where
  "button s key \<longleftrightarrow> key \<in> set (clicked s)"

section \<open>YAML utilities\<close>

definition DIRS :: "(string \<times> string) list" where
  "DIRS = [(''Taxon'', ''data/taxa''), (''Source'', ''data/sources''),
           (''Material'', ''data/materials''), (''Assertions'', ''data/assertions'')]"

definition load_yaml :: "filesystem \<Rightarrow> string \<Rightarrow> exn + pyval" where
  "load_yaml fs path = yaml_content fs path"

definition list_yaml_ids :: "filesystem \<Rightarrow> string \<Rightarrow> exn + string list" where
  "list_yaml_ids fs directory =
     (case path_exists fs directory of
        Inl e \<Rightarrow> Inl e
      | Inr found \<Rightarrow> Inr (if \<not> found then [] else sort (yaml_stems fs directory)))"

fun load_vocab :: "filesystem \<Rightarrow> pyval \<Rightarrow> exn + pyval" where
  "load_vocab fs (PList xs) = Inr (PList xs)"
| "load_vocab fs (PStr source) =
     (case path_exists fs source of
        Inl e \<Rightarrow> Inl e
      | Inr found \<Rightarrow> if found then load_yaml fs source else Inr (PList []))"
| "load_vocab fs _ = Inr (PList [])"

section \<open>The generic field renderer\<close>

fun normalize_spec :: "pyval \<Rightarrow> pyval" where
  "normalize_spec (PStr s) = PDict [(''value_type'', PStr s)]"
| "normalize_spec spec = spec"

text \<open>
  The header of a field: its title, starred when \<^verbatim>\<open>spec.get("required")\<close> is true. The
  description is looked up too and only displayed.
\<close>

definition field_header :: "string \<Rightarrow> pyval \<Rightarrow> exn + string" where
  "field_header name spec =
     (case py_get spec ''required'' PNone of
        Inl e \<Rightarrow> Inl e
      | Inr r \<Rightarrow>
          (case py_get spec ''description'' (PStr []) of
             Inl e \<Rightarrow> Inl e
           | Inr desc \<Rightarrow> Inr (name @ (if truthy r then '' *'' else []))))"

text \<open>The sentinel of the reference choices: an em dash, the word \<^verbatim>\<open>none\<close> between
  blanks, an em dash, in UTF-8.\<close>

definition NONE_CHOICE :: string where
  "NONE_CHOICE = [CHR 0xE2, CHR 0x80, CHR 0x94] @ '' none '' @ [CHR 0xE2, CHR 0x80, CHR 0x94]"

text \<open>
  \<^verbatim>\<open>DIRS.get\<close> behind \<^verbatim>\<open>target in DIRS\<close> and \<^verbatim>\<open>DIRS[target]\<close>: a list or a dict cannot be
  hashed, so the membership test raises TypeError; any other value that is not one of
  the four names is simply not a key.
\<close>

fun dirs_lookup :: "pyval \<Rightarrow> exn + string option" where
  "dirs_lookup (PStr t) = Inr (map_of DIRS t)"
| "dirs_lookup (PList xs) = Inl TypeError"
| "dirs_lookup (PDict kvs) = Inl TypeError"
| "dirs_lookup _ = Inr None"

text \<open>\<^verbatim>\<open>spec.get("fields", {}).items()\<close>.\<close>

definition fields_items :: "pyval \<Rightarrow> exn + (string \<times> pyval) list" where
  "fields_items spec =
     (case py_get spec ''fields'' (PDict []) of Inl e \<Rightarrow> Inl e | Inr f \<Rightarrow> py_items f)"

text \<open>
  The list a \<^verbatim>\<open>list_of_objects\<close> field keeps under its key after
  \<^verbatim>\<open>setdefault(key, [])\<close> and the append of the add button: its length.
\<close>

definition entry_count :: "session \<Rightarrow> string \<Rightarrow> nat" where
  "entry_count s key =
     (case entry_lists s key of Some n \<Rightarrow> n | None \<Rightarrow> 0)
       + (if button s (key @ ''_add'') then 1 else 0)"

text \<open>
  The renderer recurses through the \<^verbatim>\<open>fields\<close> of a spec. Its termination measure is
  the size of the field set a spec carries: every child spec is a proper part of it.
\<close>

definition isize :: "(string \<times> pyval) list \<Rightarrow> nat" where
  "isize items = size_list (size_prod (\<lambda>_. 0) size) items"

definition fsize :: "pyval \<Rightarrow> nat" where
  "fsize spec = (case fields_items spec of Inr items \<Rightarrow> isize items | Inl e \<Rightarrow> 0)"

lemma map_of_size: "map_of kvs k = Some v \<Longrightarrow> size v < isize kvs"
  by (induction kvs) (auto simp: isize_def split: if_splits)

lemma fsize_le: "fsize (normalize_spec v) \<le> size v"
proof (cases v)
  case (PDict kvs)
  show ?thesis
  proof (cases "map_of kvs ''fields''")
    case None
    then show ?thesis using PDict by (simp add: fsize_def fields_items_def isize_def)
  next
    case (Some f)
    then have "size f < isize kvs" by (rule map_of_size)
    then show ?thesis using PDict Some
      by (cases f) (auto simp: fsize_def fields_items_def isize_def)
  qed
qed (auto simp: fsize_def fields_items_def isize_def)

lemma fsize_head: "Suc (Suc (2 * fsize (normalize_spec fspec))) < 2 * isize ((fname, fspec) # rest)"
  using fsize_le [of fspec] by (simp add: isize_def)

lemma isize_tail: "isize rest < isize (x # rest)"
  by (simp add: isize_def)

lemma fsize_items: "fields_items spec = Inr items \<Longrightarrow> fsize spec = isize items"
  by (simp add: fsize_def)

text \<open>
  \<^verbatim>\<open>render_field(name, spec, key_prefix)\<close>, with its two loops as functions of their
  own: \<open>render_children\<close> is the loop over \<^verbatim>\<open>spec.get("fields", {}).items()\<close> that
  collects the values that are not left out into a dict (the accumulator), and
  \<open>render_entries\<close> is the loop \<^verbatim>\<open>for i in range(len(entries))\<close> with the results so
  far. The session is passed through, since a \<^verbatim>\<open>list_of_objects\<close> field stores its list
  in it and every widget takes its key in it. A list field takes the key of its list
  at \<^verbatim>\<open>setdefault\<close> and the key of its add button. The two source files differ here only
  in the markup they display.
\<close>

function render_field :: "filesystem \<Rightarrow> session \<Rightarrow> string \<Rightarrow> pyval \<Rightarrow> string \<Rightarrow> exn + (pyval \<times> session)"
  and render_children :: "filesystem \<Rightarrow> session \<Rightarrow> (string \<times> pyval) list \<Rightarrow> string \<Rightarrow> (string \<times> pyval) list \<Rightarrow> exn + ((string \<times> pyval) list \<times> session)"
  and render_entries :: "filesystem \<Rightarrow> session \<Rightarrow> pyval \<Rightarrow> string \<Rightarrow> nat \<Rightarrow> nat \<Rightarrow> pyval list \<Rightarrow> exn + (pyval list \<times> session)"
where
  "render_field fs s name spec0 key_prefix =
     (let spec = normalize_spec spec0; key = key_prefix @ ''_'' @ name in
      case field_header name spec of
        Inl e \<Rightarrow> Inl e
      | Inr title \<Rightarrow>
      (case py_get spec ''value_type'' (PStr ''string'') of
        Inl e \<Rightarrow> Inl e
      | Inr vtype \<Rightarrow>
          if vtype = PStr ''string'' then keyed s key (PStr (text_input s key))
          else if vtype = PStr ''integer'' then keyed s key (PInt (number_input_int s key))
          else if vtype = PStr ''float'' then keyed s key (PFloat (number_input_float s key))
          else if vtype = PStr ''controlled_vocab'' then
            (case py_get spec ''vocabulary_source'' PNone of
               Inl e \<Rightarrow> Inl e
             | Inr a \<Rightarrow>
            (case (if truthy a then Inr a else py_get spec ''vocabulary'' PNone) of
               Inl e \<Rightarrow> Inl e
             | Inr source \<Rightarrow>
            (case load_vocab fs source of
               Inl e \<Rightarrow> Inl e
             | Inr vocab \<Rightarrow> keyed s key (selectbox s vocab key))))
          else if vtype = PStr ''reference'' then
            (case py_get spec ''target'' PNone of
               Inl e \<Rightarrow> Inl e
             | Inr target \<Rightarrow>
            (case dirs_lookup target of
               Inl e \<Rightarrow> Inl e
             | Inr (Some directory) \<Rightarrow>
                 (case list_yaml_ids fs directory of
                    Inl e \<Rightarrow> Inl e
                  | Inr ids \<Rightarrow>
                      keyed s key (selectbox s (PList (map PStr (NONE_CHOICE # ids))) key))
             | Inr None \<Rightarrow> keyed s key (PStr (text_input s key))))
          else if vtype = PStr ''object'' then
            (case fields_items spec of
               Inl e \<Rightarrow> Inl e
             | Inr items \<Rightarrow>
            (case render_children fs s items key [] of
               Inl e \<Rightarrow> Inl e
             | Inr (obj, s') \<Rightarrow> Inr (if obj = [] then PNone else PDict obj, s')))
          else if vtype = PStr ''list_of_objects'' then
            (case claim_key s key of
               Inl e \<Rightarrow> Inl e
             | Inr sa \<Rightarrow>
            (case claim_key sa (key @ ''_add'') of
               Inl e \<Rightarrow> Inl e
             | Inr sb \<Rightarrow>
            (let n = entry_count s key;
                 s1 = sb\<lparr>entry_lists := (entry_lists s)(key \<mapsto> n)\<rparr>
             in case render_entries fs s1 spec key 0 n [] of
                  Inl e \<Rightarrow> Inl e
                | Inr (results, s') \<Rightarrow> Inr (if results = [] then PNone else PList results, s'))))
          else Inr (PNone, s)))"
| "render_children fs s [] key_prefix acc = Inr (acc, s)"
| "render_children fs s ((fname, fspec) # rest) key_prefix acc =
     (case render_field fs s fname fspec key_prefix of
        Inl e \<Rightarrow> Inl e
      | Inr (val, s') \<Rightarrow>
          render_children fs s' rest key_prefix
            (if omitted val then acc else dict_set acc fname val))"
| "render_entries fs s spec key i n results =
     (if i < n then
        (case fields_items spec of
           Inl e \<Rightarrow> Inl e
         | Inr items \<Rightarrow>
        (case render_children fs s items (key @ ''_'' @ str_of_nat i) [] of
           Inl e \<Rightarrow> Inl e
         | Inr (entry, s') \<Rightarrow>
             render_entries fs s' spec key (Suc i) n
               (if entry = [] then results else results @ [PDict entry])))
      else Inr (results, s))"
  by pat_completeness auto
termination
  apply (relation "inv_image (less_than <*lex*> less_than)
     (\<lambda>x. case x of
        Inl (fs, s, name, spec0, kp) \<Rightarrow> (2 * fsize (normalize_spec spec0) + 2, 0)
      | Inr (Inl (fs, s, items, kp, acc)) \<Rightarrow> (2 * isize items, 0)
      | Inr (Inr (fs, s, spec, key, i, n, results)) \<Rightarrow> (2 * fsize spec + 1, n - i))")
  apply (simp_all add: fsize_head fsize_items isize_tail wf_inv_image wf_lex_prod)
  done

declare render_field.simps [simp del] render_entries.simps [simp del]

section \<open>Entity tabs\<close>

text \<open>
  What one run of a tab does that a later run can see: it shows a stored record, does
  nothing, reports a message with \<^verbatim>\<open>st.error\<close>, or writes a record. \<open>Saved d i p\<close>
  is \<^verbatim>\<open>save_yaml(d / f"{i}.yaml", p)\<close>: the directory, the value formatted into the
  file name, and the data dumped.
\<close>

datatype outcome =
    Shown pyval
  | Idle
  | Failed string
  | Saved string pyval pyval

definition NEW_CHOICE :: string where
  "NEW_CHOICE = [CHR 0xE2, CHR 0x80, CHR 0x94] @ '' new '' @ [CHR 0xE2, CHR 0x80, CHR 0x94]"

definition load_schema :: "filesystem \<Rightarrow> string \<Rightarrow> exn + pyval" where
  "load_schema fs schema_path = load_yaml fs schema_path"

text \<open>\<^verbatim>\<open>str.lower\<close> on the letters A to Z; every key of \<open>DIRS\<close> is made of them.\<close>

definition lower_char :: "char \<Rightarrow> char" where
  "lower_char c =
     (case map_of (zip ''ABCDEFGHIJKLMNOPQRSTUVWXYZ'' ''abcdefghijklmnopqrstuvwxyz'') c of
        Some l \<Rightarrow> l | None \<Rightarrow> c)"

definition lower :: "string \<Rightarrow> string" where
  "lower s = map lower_char s"

text \<open>\<^verbatim>\<open>sep.join(xs)\<close>.\<close>

fun join :: "string \<Rightarrow> string list \<Rightarrow> string" where
  "join sep [] = []"
| "join sep [x] = x"
| "join sep (x # y # ys) = x @ sep @ join sep (y # ys)"

text \<open>
  The comprehension
  \<^verbatim>\<open>[f for f, s in schema["fields"].items() if s.get("required") and f not in payload]\<close>.
  It calls \<^verbatim>\<open>get\<close> on the spec as the schema file gives it, not on the normalised one.
\<close>

fun missing_fields :: "(string \<times> pyval) list \<Rightarrow> (string \<times> pyval) list \<Rightarrow> exn + string list" where
  "missing_fields [] payload = Inr []"
| "missing_fields ((f, sp) # rest) payload =
     (case py_get sp ''required'' PNone of
        Inl e \<Rightarrow> Inl e
      | Inr r \<Rightarrow>
          (case missing_fields rest payload of
             Inl e \<Rightarrow> Inl e
           | Inr ms \<Rightarrow> Inr (if truthy r \<and> map_of payload f = None then f # ms else ms)))"

text \<open>\<^verbatim>\<open>schema["fields"].items()\<close>.\<close>

definition schema_items :: "pyval \<Rightarrow> exn + (string \<times> pyval) list" where
  "schema_items schema =
     (case py_subscript schema ''fields'' of Inl e \<Rightarrow> Inl e | Inr f \<Rightarrow> py_items f)"

text \<open>
  The body of \<^verbatim>\<open>if st.button(f"Save {entity_name}")\<close>: the required-field check, the
  identifier check, the write.
\<close>

definition save_entity :: "string \<Rightarrow> string \<Rightarrow> pyval \<Rightarrow> (string \<times> pyval) list \<Rightarrow> exn + outcome" where
  "save_entity entity_name directory schema payload =
     (case schema_items schema of
        Inl e \<Rightarrow> Inl e
      | Inr items \<Rightarrow>
     (case missing_fields items payload of
        Inl e \<Rightarrow> Inl e
      | Inr missing \<Rightarrow>
          if missing \<noteq> [] then
            Inr (Failed (''Missing required fields: '' @ join '', '' missing))
          else
            (let file_id = (case map_of payload (lower entity_name @ ''_id'') of
                              Some v \<Rightarrow> v | None \<Rightarrow> PNone)
             in if \<not> truthy file_id then Inr (Failed ''Missing identifier field'')
                else Inr (Saved directory file_id (PDict payload)))))"

text \<open>
  \<^verbatim>\<open>entity_tab(entity_name, schema_path)\<close>. The record shown is chosen among strings, so
  the file name is formatted from a string; the other branch of that \<open>case\<close> is never
  taken. The payload loop is the loop of an object field, with the entity name as key
  prefix.
\<close>

definition entity_tab :: "filesystem \<Rightarrow> session \<Rightarrow> string \<Rightarrow> string \<Rightarrow> exn + (outcome \<times> session)" where
  "entity_tab fs s entity_name schema_path =
     (case map_of DIRS entity_name of
        None \<Rightarrow> Inl KeyError
      | Some directory \<Rightarrow>
     (case load_schema fs schema_path of
        Inl e \<Rightarrow> Inl e
      | Inr doc \<Rightarrow>
     (case py_subscript doc entity_name of
        Inl e \<Rightarrow> Inl e
      | Inr schema \<Rightarrow>
     (case list_yaml_ids fs directory of
        Inl e \<Rightarrow> Inl e
      | Inr ids \<Rightarrow>
     (case keyed s (entity_name @ ''_select'')
             (selectbox s (PList (map PStr (NEW_CHOICE # ids))) (entity_name @ ''_select'')) of
        Inl e \<Rightarrow> Inl e
      | Inr (selected, s0) \<Rightarrow>
         if selected \<noteq> PStr NEW_CHOICE then
           (case selected of
              PStr sel \<Rightarrow>
                (case load_yaml fs (directory @ ''/'' @ sel @ ''.yaml'') of
                   Inl e \<Rightarrow> Inl e
                 | Inr content \<Rightarrow> Inr (Shown content, s0))
            | _ \<Rightarrow> Inl TypeError)
         else
           (case schema_items schema of
              Inl e \<Rightarrow> Inl e
            | Inr items \<Rightarrow>
           (case render_children fs s0 items entity_name [] of
              Inl e \<Rightarrow> Inl e
            | Inr (payload, s') \<Rightarrow>
                if button s' (''Save '' @ entity_name) then
                  (case save_entity entity_name directory schema payload of
                     Inl e \<Rightarrow> Inl e
                   | Inr out \<Rightarrow> Inr (out, s'))
                else Inr (Idle, s'))))))))"

section \<open>Assertions tab\<close>

text \<open>
  \<^verbatim>\<open>load_qualifiers()\<close>, run once when the module is loaded: one vocabulary per file of
  \<^verbatim>\<open>ontology/qualifiers\<close>, keyed by the file's stem.
\<close>

fun load_qualifiers_from :: "filesystem \<Rightarrow> string list \<Rightarrow> (string \<times> pyval) list \<Rightarrow> exn + (string \<times> pyval) list" where
  "load_qualifiers_from fs [] acc = Inr acc"
| "load_qualifiers_from fs (stem # stems) acc =
     (case load_yaml fs (''ontology/qualifiers/'' @ stem @ ''.yaml'') of
        Inl e \<Rightarrow> Inl e
      | Inr vocab \<Rightarrow> load_qualifiers_from fs stems (dict_set acc stem vocab))"

definition load_qualifiers :: "filesystem \<Rightarrow> exn + (string \<times> pyval) list" where
  "load_qualifiers fs = load_qualifiers_from fs (yaml_stems fs ''ontology/qualifiers'') []"

definition load_traits :: "filesystem \<Rightarrow> string \<Rightarrow> exn + pyval" where
  "load_traits fs domain = load_yaml fs (''ontology/'' @ domain @ ''/traits.yaml'')"

text \<open>
  Keys of the traits dict are whatever \<^verbatim>\<open>t["trait_id"]\<close> is. A list or a dict cannot be
  a key (TypeError); numbers and booleans are the same key when they are equal as
  numbers.
\<close>

fun num_of :: "pyval \<Rightarrow> real option" where
  "num_of (PBool b) = Some (if b then 1 else 0)"
| "num_of (PInt i) = Some (of_int i)"
| "num_of (PFloat r) = Some r"
| "num_of _ = None"

definition key_eq :: "pyval \<Rightarrow> pyval \<Rightarrow> bool" where
  "key_eq a b =
     (case (num_of a, num_of b) of
        (Some x, Some y) \<Rightarrow> x = y
      | (None, None) \<Rightarrow> a = b
      | _ \<Rightarrow> False)"

fun hashable :: "pyval \<Rightarrow> bool" where
  "hashable (PList xs) = False"
| "hashable (PDict kvs) = False"
| "hashable _ = True"

fun obj_set :: "(pyval \<times> pyval) list \<Rightarrow> pyval \<Rightarrow> pyval \<Rightarrow> (pyval \<times> pyval) list" where
  "obj_set [] k v = [(k, v)]"
| "obj_set ((k', v') # kvs) k v =
     (if key_eq k' k then (k', v) # kvs else (k', v') # obj_set kvs k v)"

fun obj_lookup :: "(pyval \<times> pyval) list \<Rightarrow> pyval \<Rightarrow> pyval option" where
  "obj_lookup [] k = None"
| "obj_lookup ((k', v') # kvs) k = (if key_eq k' k then Some v' else obj_lookup kvs k)"

text \<open>
  What a \<^verbatim>\<open>for\<close> over a loaded document visits, as far as the two comprehensions below
  can tell: the elements of a list; nothing for an empty dict or string. Every element
  of a non-empty dict or string is a string, which the subscript in the comprehension
  refuses with TypeError, as iteration refuses \<^verbatim>\<open>None\<close> and numbers.
\<close>

fun iter_records :: "pyval \<Rightarrow> exn + pyval list" where
  "iter_records (PList xs) = Inr xs"
| "iter_records (PDict kvs) = (if kvs = [] then Inr [] else Inl TypeError)"
| "iter_records (PStr s) = (if s = [] then Inr [] else Inl TypeError)"
| "iter_records _ = Inl TypeError"

text \<open>\<^verbatim>\<open>{t["trait_id"]: t for t in ...}\<close>.\<close>

fun traits_from :: "pyval list \<Rightarrow> (pyval \<times> pyval) list \<Rightarrow> exn + (pyval \<times> pyval) list" where
  "traits_from [] acc = Inr acc"
| "traits_from (t # ts) acc =
     (case py_subscript t ''trait_id'' of
        Inl e \<Rightarrow> Inl e
      | Inr k \<Rightarrow> if hashable k then traits_from ts (obj_set acc k t) else Inl TypeError)"

text \<open>\<^verbatim>\<open>[f["feature_id"] for f in ...]\<close>.\<close>

fun features_from :: "pyval list \<Rightarrow> exn + pyval list" where
  "features_from [] = Inr []"
| "features_from (f # fs) =
     (case py_subscript f ''feature_id'' of
        Inl e \<Rightarrow> Inl e
      | Inr i \<Rightarrow> (case features_from fs of Inl e \<Rightarrow> Inl e | Inr ids \<Rightarrow> Inr (i # ids)))"

definition load_features :: "filesystem \<Rightarrow> string \<Rightarrow> exn + pyval list" where
  "load_features fs domain =
     (case load_yaml fs (''ontology/'' @ domain @ ''/features.yaml'') of
        Inl e \<Rightarrow> Inl e
      | Inr doc \<Rightarrow>
          (case iter_records doc of Inl e \<Rightarrow> Inl e | Inr recs \<Rightarrow> features_from recs))"

text \<open>The value widget, chosen by the trait's own \<^verbatim>\<open>value_type\<close>; its label is a blank.\<close>

definition value_input :: "filesystem \<Rightarrow> session \<Rightarrow> pyval \<Rightarrow> exn + pyval" where
  "value_input fs s trait =
     (case py_get trait ''value_type'' (PStr ''string'') of
        Inl e \<Rightarrow> Inl e
      | Inr vtype \<Rightarrow>
          if vtype = PStr ''categorical'' then
            (case py_get trait ''vocabulary'' PNone of
               Inl e \<Rightarrow> Inl e
             | Inr source \<Rightarrow>
                 (case load_vocab fs source of
                    Inl e \<Rightarrow> Inl e
                  | Inr vocab \<Rightarrow> Inr (selectbox s vocab '' '')))
          else if vtype = PStr ''integer'' then Inr (PInt (number_input_int s '' ''))
          else if vtype = PStr ''float'' then Inr (PFloat (number_input_float s '' ''))
          else Inr (PStr (text_input s '' '')))"

text \<open>
  The loop over \<^verbatim>\<open>QUALIFIERS.items()\<close>: a qualifier enters the dict when its selection
  is not empty.
\<close>

fun collect_qualifiers :: "session \<Rightarrow> (string \<times> pyval) list \<Rightarrow> (string \<times> pyval) list \<Rightarrow> (string \<times> pyval) list" where
  "collect_qualifiers s [] qualifiers = qualifiers"
| "collect_qualifiers s ((q, vocab) # rest) qualifiers =
     (let sel = multiselect s q vocab
      in collect_qualifiers s rest
           (if sel \<noteq> [] then dict_set qualifiers q (PList sel) else qualifiers))"

text \<open>Everything the tab has read when it reaches the save button.\<close>

record assertion_form =
  form_domain :: string
  form_taxon_id :: pyval
  form_source_id :: pyval
  form_material_id :: pyval
  form_feature :: pyval
  form_trait_id :: pyval
  form_value :: pyval
  form_qualifiers :: "(string \<times> pyval) list"

text \<open>
  The tab from \<^verbatim>\<open>traits = ...\<close> down to the qualifiers, for the domain chosen.
  \<open>QUALIFIERS\<close> is the module's global, loaded before the tab runs.
\<close>

definition collect_form :: "filesystem \<Rightarrow> session \<Rightarrow> (string \<times> pyval) list \<Rightarrow> string \<Rightarrow> exn + assertion_form" where
  "collect_form fs s QUALIFIERS domain =
     (case load_traits fs domain of
        Inl e \<Rightarrow> Inl e
      | Inr tdoc \<Rightarrow>
     (case iter_records tdoc of
        Inl e \<Rightarrow> Inl e
      | Inr trecs \<Rightarrow>
     (case traits_from trecs [] of
        Inl e \<Rightarrow> Inl e
      | Inr traits \<Rightarrow>
     (case load_features fs domain of
        Inl e \<Rightarrow> Inl e
      | Inr features \<Rightarrow>
     (case list_yaml_ids fs ''data/taxa'' of
        Inl e \<Rightarrow> Inl e
      | Inr taxa \<Rightarrow>
     (case list_yaml_ids fs ''data/sources'' of
        Inl e \<Rightarrow> Inl e
      | Inr sources \<Rightarrow>
     (case list_yaml_ids fs ''data/materials'' of
        Inl e \<Rightarrow> Inl e
      | Inr materials \<Rightarrow>
     (let taxon_id = selectbox s (PList (map PStr (NONE_CHOICE # taxa))) ''taxon_id *'';
          source_id = selectbox s (PList (map PStr (NONE_CHOICE # sources))) ''source_id *'';
          material_id = selectbox s (PList (map PStr (NONE_CHOICE # materials))) ''material_id (optional)'';
          feature = selectbox s (PList features) ''feature *'';
          trait_id = selectbox s (PList (map fst traits)) ''trait *''
      in case obj_lookup traits trait_id of
           None \<Rightarrow> Inl KeyError
         | Some trait \<Rightarrow>
             (case value_input fs s trait of
                Inl e \<Rightarrow> Inl e
              | Inr val \<Rightarrow>
                  Inr \<lparr>form_domain = domain, form_taxon_id = taxon_id,
                       form_source_id = source_id, form_material_id = material_id,
                       form_feature = feature, form_trait_id = trait_id, form_value = val,
                       form_qualifiers = collect_qualifiers s QUALIFIERS []\<rparr>)))))))))"

text \<open>The assertion dict: \<^verbatim>\<open>"qualifiers": qualifiers or None\<close> is always one of its keys.\<close>

definition assertion_of :: "assertion_form \<Rightarrow> pyval" where
  "assertion_of f =
     PDict [(''feature'', form_feature f), (''trait'', form_trait_id f),
            (''value'', form_value f),
            (''qualifiers'', py_or (PDict (form_qualifiers f)) PNone)]"

text \<open>The body of \<^verbatim>\<open>if st.button("Save assertion file")\<close>.\<close>

definition save_assertion :: "assertion_form \<Rightarrow> outcome" where
  "save_assertion f =
     (if form_taxon_id f = PStr NONE_CHOICE \<or> form_source_id f = PStr NONE_CHOICE then
        Failed ''taxon_id and source_id required''
      else
        (let aset = [(''source_id'', form_source_id f),
                     (''assertions'', PList [assertion_of f])];
             aset' = (if form_material_id f \<noteq> PStr NONE_CHOICE
                      then dict_set aset ''material_id'' (form_material_id f) else aset);
             payload = PDict [(''taxon_id'', form_taxon_id f),
                              (''assertion_sets'', PList [PDict aset'])]
         in Saved (''data/assertions/'' @ form_domain f) (form_taxon_id f) payload))"

text \<open>
  \<^verbatim>\<open>assertions_tab()\<close> of \<^verbatim>\<open>app8.py\<close>. The domain is chosen among the names of the
  sub-directories; with none to choose from it is \<^verbatim>\<open>None\<close>, and joining a path with
  \<^verbatim>\<open>None\<close> raises TypeError.
\<close>

definition choose_domain :: "filesystem \<Rightarrow> session \<Rightarrow> exn + pyval" where
  "choose_domain fs s =
     (case subdir_names fs ''data/assertions'' of
        None \<Rightarrow> Inl OSError
      | Some names \<Rightarrow> Inr (selectbox s (PList (map PStr (sort names))) ''Domain''))"

definition assertions_from :: "filesystem \<Rightarrow> session \<Rightarrow> (string \<times> pyval) list \<Rightarrow> pyval \<Rightarrow> exn + outcome" where
  "assertions_from fs s QUALIFIERS domain =
     (case domain of
        PStr d \<Rightarrow>
          (case collect_form fs s QUALIFIERS d of
             Inl e \<Rightarrow> Inl e
           | Inr f \<Rightarrow>
               Inr (if button s ''Save assertion file'' then save_assertion f else Idle))
      | _ \<Rightarrow> Inl TypeError)"

definition assertions_tab :: "filesystem \<Rightarrow> session \<Rightarrow> (string \<times> pyval) list \<Rightarrow> exn + outcome" where
  "assertions_tab fs s QUALIFIERS =
     (case choose_domain fs s of
        Inl e \<Rightarrow> Inl e
      | Inr domain \<Rightarrow> assertions_from fs s QUALIFIERS domain)"

text \<open>
  \<^verbatim>\<open>assertions_tab()\<close> of \<^verbatim>\<open>app7.py\<close>: the same, after one more load, of the domain's
  assertion schema, whose result is not used.
\<close>

definition domain_text :: "pyval \<Rightarrow> string" where
  "domain_text domain = (case domain of PStr d \<Rightarrow> d | _ \<Rightarrow> ''None'')"

definition assertions_tab7 :: "filesystem \<Rightarrow> session \<Rightarrow> (string \<times> pyval) list \<Rightarrow> exn + outcome" where
  "assertions_tab7 fs s QUALIFIERS =
     (case choose_domain fs s of
        Inl e \<Rightarrow> Inl e
      | Inr domain \<Rightarrow>
          (case load_schema fs (''ontology/core/'' @ domain_text domain @ ''_assertion_schema.yaml'') of
             Inl e \<Rightarrow> Inl e
           | Inr schema \<Rightarrow> assertions_from fs s QUALIFIERS domain))"

section \<open>Notions used by the statements\<close>

text \<open>The value type \<open>render_field\<close> dispatches on: \<^verbatim>\<open>spec.get("value_type", "string")\<close>
  of the normalised spec.\<close>

definition spec_vtype :: "pyval \<Rightarrow> exn + pyval" where
  "spec_vtype spec = py_get (normalize_spec spec) ''value_type'' (PStr ''string'')"

text \<open>A sequence of strings, which a vocabulary is meant to be.\<close>

fun is_str_seq :: "pyval \<Rightarrow> bool" where
  "is_str_seq (PList xs) = list_all (\<lambda>x. case x of PStr s \<Rightarrow> True | _ \<Rightarrow> False) xs"
| "is_str_seq _ = False"

text \<open>A field the schema marks required: \<^verbatim>\<open>s.get("required")\<close> is true.\<close>

definition marked_required :: "pyval \<Rightarrow> bool" where
  "marked_required sp = (case py_get sp ''required'' PNone of Inr r \<Rightarrow> truthy r | Inl e \<Rightarrow> False)"

subsection \<open>What the children of a field yield\<close>

text \<open>
  The values the fields of a field set yield, one after the other with the session
  passed on, before anything is left out: \<open>render_field\<close> run on each child under the
  given key prefix.
\<close>

fun children_values :: "filesystem \<Rightarrow> session \<Rightarrow> (string \<times> pyval) list \<Rightarrow> string \<Rightarrow> exn + ((string \<times> pyval) list \<times> session)" where
  "children_values fs s [] key_prefix = Inr ([], s)"
| "children_values fs s ((fname, fspec) # rest) key_prefix =
     (case render_field fs s fname fspec key_prefix of
        Inl e \<Rightarrow> Inl e
      | Inr (val, s') \<Rightarrow>
          (case children_values fs s' rest key_prefix of
             Inl e \<Rightarrow> Inl e
           | Inr (vals, s'') \<Rightarrow> Inr ((fname, val) # vals, s'')))"

text \<open>The same for the entries of a list field with the given indices, entry by entry.\<close>

fun entries_values :: "filesystem \<Rightarrow> session \<Rightarrow> (string \<times> pyval) list \<Rightarrow> string \<Rightarrow> nat list \<Rightarrow> exn + ((string \<times> pyval) list list \<times> session)" where
  "entries_values fs s items key [] = Inr ([], s)"
| "entries_values fs s items key (i # rest) =
     (case children_values fs s items (key @ ''_'' @ str_of_nat i) of
        Inl e \<Rightarrow> Inl e
      | Inr (vals, s') \<Rightarrow>
          (case entries_values fs s' items key rest of
             Inl e \<Rightarrow> Inl e
           | Inr (vss, s'') \<Rightarrow> Inr (vals # vss, s'')))"

text \<open>The children that are not left out, and the test that all of them are.\<close>

definition kept :: "(string \<times> pyval) list \<Rightarrow> (string \<times> pyval) list" where
  "kept vals = filter (\<lambda>(k, v). \<not> omitted v) vals"

definition all_omitted :: "(string \<times> pyval) list \<Rightarrow> bool" where
  "all_omitted vals \<longleftrightarrow> list_all (\<lambda>(k, v). omitted v) vals"

text \<open>
  What a run of the renderer under a key prefix may change in the session: nothing but
  the keys taken and the stored lists, and none of the lists whose key is no longer
  than the bound.
\<close>

definition frame :: "nat \<Rightarrow> session \<Rightarrow> session \<Rightarrow> bool" where
  "frame l s s' \<longleftrightarrow>
     (\<exists>m ks. s' = s\<lparr>entry_lists := m, run_keys := ks\<rparr>
        \<and> (\<forall>k. length k \<le> l \<longrightarrow> m k = entry_lists s k))"

subsection \<open>Well-kept records\<close>

text \<open>
  What a stored value must look like for a field of a given spec, and a stored mapping
  for a given field set. A mapping for a field set is not empty, and each of its
  entries is well kept for some field of that name. For an object field the value is a
  mapping for the field's own field set; for a list field it is a list that is not
  empty, of such mappings; for every other field it is any value other than \<^verbatim>\<open>None\<close>
  and the empty string.
\<close>

definition items_of :: "pyval \<Rightarrow> (string \<times> pyval) list" where
  "items_of spec = (case fields_items (normalize_spec spec) of Inr items \<Rightarrow> items | Inl e \<Rightarrow> [])"

fun stored_ok :: "pyval \<Rightarrow> pyval \<Rightarrow> bool"
  and fields_ok :: "(string \<times> pyval) list \<Rightarrow> pyval \<Rightarrow> bool"
where
  "stored_ok spec v =
     (if spec_vtype spec = Inr (PStr ''object'') then fields_ok (items_of spec) v
      else if spec_vtype spec = Inr (PStr ''list_of_objects'') then
        (case v of
           PList es \<Rightarrow> es \<noteq> [] \<and> (\<forall>e \<in> set es. fields_ok (items_of spec) e)
         | _ \<Rightarrow> False)
      else \<not> omitted v)"
| "fields_ok items v =
     (case v of
        PDict kvs \<Rightarrow>
          kvs \<noteq> [] \<and> (\<forall>(k, x) \<in> set kvs. \<exists>(k', fspec) \<in> set items. k' = k \<and> stored_ok fspec x)
      | _ \<Rightarrow> False)"

declare stored_ok.simps [simp del] fields_ok.simps [simp del]

text \<open>Every entry of a mapping is well kept for some field of its name.\<close>

definition entries_ok :: "(string \<times> pyval) list \<Rightarrow> (string \<times> pyval) list \<Rightarrow> bool" where
  "entries_ok items kvs \<longleftrightarrow>
     (\<forall>(k, x) \<in> set kvs. \<exists>(k', fspec) \<in> set items. k' = k \<and> stored_ok fspec x)"

section \<open>Concrete worlds\<close>

text \<open>
  The sessions, file systems and schemas at which the statements below are evaluated.
\<close>

text \<open>A session in which nothing was typed, chosen or pressed, at the start of a run.\<close>

definition blank_session :: session where
  "blank_session = \<lparr>text_values = Map.empty, int_values = Map.empty, float_values = Map.empty,
     choices = Map.empty, multi_choices = Map.empty, entry_lists = Map.empty, clicked = [],
     run_keys = []\<rparr>"

text \<open>A file system with nothing in it.\<close>

definition no_files :: filesystem where
  "no_files = \<lparr>path_exists = (\<lambda>p. Inr False), yaml_stems = (\<lambda>p. []),
     subdir_names = (\<lambda>p. None), yaml_content = (\<lambda>p. Inl OSError)\<rparr>"

text \<open>
  A file system with two files where vocabularies are expected: one holds a YAML
  mapping, the other does not parse. A name of more than 255 characters is refused by
  the system.
\<close>

definition vocab_files :: filesystem where
  "vocab_files = \<lparr>
     path_exists = (\<lambda>p. if 255 < length p then Inl OSError
                         else Inr (p = ''ontology/habitat.yaml'' \<or> p = ''ontology/broken.yaml'')),
     yaml_stems = (\<lambda>p. []),
     subdir_names = (\<lambda>p. None),
     yaml_content = (\<lambda>p. if p = ''ontology/habitat.yaml'' then Inr (PDict [(''marine'', PInt 1)])
                          else if p = ''ontology/broken.yaml'' then Inl YAMLError
                          else Inl OSError)\<rparr>"

text \<open>A file system whose taxon collection holds two records.\<close>

definition taxa_files :: filesystem where
  "taxa_files = \<lparr>
     path_exists = (\<lambda>p. Inr (p = ''data/taxa'')),
     yaml_stems = (\<lambda>p. if p = ''data/taxa'' then [''Taxon_002'', ''Taxon_001''] else []),
     subdir_names = (\<lambda>p. None),
     yaml_content = (\<lambda>p. Inl OSError)\<rparr>"

text \<open>A session in which the user typed a name into the field \<^verbatim>\<open>parent\<close> of a taxon.\<close>

definition typed_session :: session where
  "typed_session = blank_session\<lparr>text_values := [''Taxon_parent'' \<mapsto> ''Amoebozoa'']\<rparr>"

text \<open>
  An object field \<^verbatim>\<open>origin\<close> with two text children, and a session in which only the
  first of them was filled in.
\<close>

definition origin_spec :: pyval where
  "origin_spec = PDict [(''value_type'', PStr ''object''),
     (''fields'', PDict [(''country'', PStr ''string''), (''site'', PStr ''string'')])]"

definition origin_session :: session where
  "origin_session = blank_session\<lparr>text_values := [''Taxon_origin_country'' \<mapsto> ''Chile'']\<rparr>"

text \<open>
  A list field \<^verbatim>\<open>synonyms\<close> with one text child, and a session that holds two entries
  for it, of which only the first has its name filled in.
\<close>

definition synonyms_spec :: pyval where
  "synonyms_spec = PDict [(''value_type'', PStr ''list_of_objects''),
     (''fields'', PDict [(''name'', PStr ''string'')])]"

definition synonyms_session :: session where
  "synonyms_session = blank_session\<lparr>
     text_values := [''Taxon_synonyms_0_name'' \<mapsto> ''A''],
     entry_lists := [''Taxon_synonyms'' \<mapsto> 2]\<rparr>"

text \<open>
  A taxon schema written as the docstring of \<open>normalize_spec\<close> allows: the identifier
  in shorthand, a required name as a mapping. The second schema file spells the
  identifier out as a mapping too. In the session only the save button was pressed.
\<close>

definition shorthand_schema :: pyval where
  "shorthand_schema = PDict [(''Taxon'', PDict [(''fields'', PDict
     [(''taxon_id'', PStr ''string''),
      (''name'', PDict [(''value_type'', PStr ''string''), (''required'', PBool True)])])])]"

definition spelled_schema :: pyval where
  "spelled_schema = PDict [(''Taxon'', PDict [(''fields'', PDict
     [(''taxon_id'', PDict [(''value_type'', PStr ''string'')]),
      (''name'', PDict [(''value_type'', PStr ''string''), (''required'', PBool True)])])])]"

definition schema_files :: filesystem where
  "schema_files = \<lparr>
     path_exists = (\<lambda>p. Inr False),
     yaml_stems = (\<lambda>p. []),
     subdir_names = (\<lambda>p. None),
     yaml_content = (\<lambda>p. if p = ''ontology/core/shorthand.yaml'' then Inr shorthand_schema
                          else if p = ''ontology/core/spelled.yaml'' then Inr spelled_schema
                          else Inl OSError)\<rparr>"

definition save_pressed :: session where
  "save_pressed = blank_session\<lparr>clicked := [''Save Taxon'']\<rparr>"

text \<open>
  A knowledge base with one domain, one trait, one feature, one taxon and one source;
  one qualifier vocabulary; a session in which a taxon and a source were chosen and the
  save button pressed, and one in which only the button was pressed.
\<close>

definition kb_files :: filesystem where
  "kb_files = \<lparr>
     path_exists = (\<lambda>p. Inr (p = ''data/taxa'' \<or> p = ''data/sources'')),
     yaml_stems = (\<lambda>p. if p = ''data/taxa'' then [''Taxon_001'']
                        else if p = ''data/sources'' then [''Source_001''] else []),
     subdir_names = (\<lambda>p. if p = ''data/assertions'' then Some [''morphology''] else None),
     yaml_content = (\<lambda>p.
        if p = ''ontology/morphology/traits.yaml'' then
          Inr (PList [PDict [(''trait_id'', PStr ''cell_length''), (''value_type'', PStr ''float'')]])
        else if p = ''ontology/morphology/features.yaml'' then
          Inr (PList [PDict [(''feature_id'', PStr ''cell'')]])
        else Inl OSError)\<rparr>"

definition kb_qualifiers :: "(string \<times> pyval) list" where
  "kb_qualifiers = [(''certainty'', PList [PStr ''high'', PStr ''low''])]"

definition chosen_session :: session where
  "chosen_session = blank_session\<lparr>
     choices := [''taxon_id *'' \<mapsto> PStr ''Taxon_001'', ''source_id *'' \<mapsto> PStr ''Source_001''],
     clicked := [''Save assertion file'']\<rparr>"

definition unchosen_session :: session where
  "unchosen_session = blank_session\<lparr>clicked := [''Save assertion file'']\<rparr>"

text \<open>The same session after one value of the qualifier was selected.\<close>

definition certain_session :: session where
  "certain_session = chosen_session\<lparr>multi_choices := [''certainty'' \<mapsto> [PStr ''high'']]\<rparr>"

text \<open>
  A taxon schema with a text identifier, a required name, an object, a list and a
  number, and a session in which the curator filled in part of it and pressed save.
\<close>

definition taxon_schema :: pyval where
  "taxon_schema = PDict [(''Taxon'', PDict [(''fields'', PDict
     [(''taxon_id'', PDict [(''value_type'', PStr ''string''), (''required'', PBool True)]),
      (''name'', PDict [(''value_type'', PStr ''string''), (''required'', PBool True)]),
      (''notes'', PDict [(''value_type'', PStr ''string'')]),
      (''origin'', origin_spec),
      (''synonyms'', synonyms_spec),
      (''count'', PDict [(''value_type'', PStr ''integer'')])])])]"

definition taxon_files :: filesystem where
  "taxon_files = \<lparr>
     path_exists = (\<lambda>p. Inr False),
     yaml_stems = (\<lambda>p. []),
     subdir_names = (\<lambda>p. None),
     yaml_content = (\<lambda>p. if p = ''ontology/core/taxonomy_assertion_schema.yaml''
                          then Inr taxon_schema else Inl OSError)\<rparr>"

definition filled_session :: session where
  "filled_session = blank_session\<lparr>
     text_values := [''Taxon_taxon_id'' \<mapsto> ''Taxon_001'', ''Taxon_name'' \<mapsto> ''Amoeba proteus'',
                     ''Taxon_origin_country'' \<mapsto> ''Chile'', ''Taxon_synonyms_0_name'' \<mapsto> ''A''],
     entry_lists := [''Taxon_synonyms'' \<mapsto> 2],
     clicked := [''Save Taxon'']\<rparr>"

text \<open>
  A field set in which the child \<^verbatim>\<open>b\<close> of the object \<^verbatim>\<open>a\<close> and the field \<^verbatim>\<open>a_b\<close> get the
  same key.
\<close>

definition colliding_items :: "(string \<times> pyval) list" where
  "colliding_items =
     [(''a'', PDict [(''value_type'', PStr ''object''), (''fields'', PDict [(''b'', PStr ''string'')])]),
      (''a_b'', PStr ''string'')]"

text \<open>A session that holds the number seven for the field \<^verbatim>\<open>count\<close> of a taxon.\<close>

definition counted_session :: session where
  "counted_session = blank_session\<lparr>int_values := [''Taxon_count'' \<mapsto> 7]\<rparr>"

section \<open>Properties\<close>

subsection \<open>Basic facts\<close>

lemma header_ok: "spec_vtype spec = Inr v \<Longrightarrow> \<exists>t. field_header name (normalize_spec spec) = Inr t"
  unfolding spec_vtype_def by (cases spec) (auto simp: field_header_def)

lemma render_integer:
  "spec_vtype spec = Inr (PStr ''integer'') \<Longrightarrow>
   render_field fs s name spec p
     = keyed s (p @ ''_'' @ name) (PInt (number_input_int s (p @ ''_'' @ name)))"
  using header_ok [of spec "PStr ''integer''" name]
  by (auto simp: render_field.simps spec_vtype_def Let_def)

lemma render_float:
  "spec_vtype spec = Inr (PStr ''float'') \<Longrightarrow>
   render_field fs s name spec p
     = keyed s (p @ ''_'' @ name) (PFloat (number_input_float s (p @ ''_'' @ name)))"
  using header_ok [of spec "PStr ''float''" name]
  by (auto simp: render_field.simps spec_vtype_def Let_def)

lemma keyed_fresh:
  "key \<notin> set (run_keys s) \<Longrightarrow> keyed s key v = Inr (v, s\<lparr>run_keys := key # run_keys s\<rparr>)"
  by (simp add: keyed_def claim_key_def)

lemma keyed_used:
  "key \<in> set (run_keys s) \<Longrightarrow> keyed s key v = Inl DuplicateElementKey"
  by (simp add: keyed_def claim_key_def)

lemma keyed_result:
  "keyed s key v = Inr (v', s') \<Longrightarrow>
   v' = v \<and> key \<notin> set (run_keys s) \<and> s' = s\<lparr>run_keys := key # run_keys s\<rparr>"
  by (auto simp: keyed_def claim_key_def split: if_splits)

lemma claim_key_result:
  "claim_key s key = Inr s' \<Longrightarrow>
   key \<notin> set (run_keys s) \<and> s' = s\<lparr>run_keys := key # run_keys s\<rparr>"
  by (auto simp: claim_key_def split: if_splits)

lemma selectbox_member:
  "option_seq options \<noteq> [] \<Longrightarrow> selectbox s options key \<in> set (option_seq options)"
  by (auto simp: selectbox_def split: list.splits option.splits)

lemma selectbox_default:
  "choices s key = None \<Longrightarrow> selectbox s (PList (x # xs)) key = x"
  by (simp add: selectbox_def)

lemma selectbox_strings:
  "\<exists>t. selectbox s (PList (map PStr (x # xs))) key = PStr t \<and> t \<in> set (x # xs)"
  using selectbox_member [of "PList (map PStr (x # xs))" s key] by auto

subsection \<open>The collecting loops\<close>

lemma dict_set_fresh: "k \<notin> fst ` set acc \<Longrightarrow> dict_set acc k v = acc @ [(k, v)]"
  by (induction acc) auto

lemma fold_dict_set_distinct:
  "distinct (map fst (acc @ xs)) \<Longrightarrow> fold (\<lambda>(k, v) d. dict_set d k v) xs acc = acc @ xs"
proof (induction xs arbitrary: acc)
  case Nil
  then show ?case by simp
next
  case (Cons x xs)
  obtain k v where x: "x = (k, v)" by (cases x)
  have "k \<notin> fst ` set acc" using Cons.prems x by auto
  then have "dict_set acc k v = acc @ [(k, v)]" by (rule dict_set_fresh)
  moreover have "distinct (map fst ((acc @ [(k, v)]) @ xs))" using Cons.prems x by simp
  ultimately show ?case using Cons.IH [of "acc @ [(k, v)]"] x by simp
qed

lemma render_children_values:
  "render_children fs s items p acc =
     (case children_values fs s items p of
        Inl e \<Rightarrow> Inl e
      | Inr (vs, s') \<Rightarrow> Inr (fold (\<lambda>(k, v) d. dict_set d k v) (kept vs) acc, s'))"
proof (induction items arbitrary: s acc)
  case Nil
  then show ?case by (simp add: kept_def)
next
  case (Cons item items)
  obtain fname fspec where item: "item = (fname, fspec)" by (cases item)
  show ?case unfolding item
    by (auto simp: Cons.IH kept_def split: sum.splits prod.splits)
qed

lemma children_values_keys:
  "children_values fs s items p = Inr (vs, s') \<Longrightarrow> map fst vs = map fst items"
proof (induction items arbitrary: s vs)
  case Nil
  then show ?case by simp
next
  case (Cons item items)
  obtain fname fspec where item: "item = (fname, fspec)" by (cases item)
  show ?case using Cons.prems unfolding item
    by (auto split: sum.splits prod.splits dest: Cons.IH)
qed

lemma kept_distinct: "distinct (map fst vs) \<Longrightarrow> distinct (map fst (kept vs))"
  by (simp add: kept_def distinct_map_filter)

lemma render_children_kept:
  assumes "distinct (map fst items)" and "children_values fs s items p = Inr (vs, s')"
  shows "render_children fs s items p [] = Inr (kept vs, s')"
proof -
  have "distinct (map fst vs)" using children_values_keys [OF assms(2)] assms(1) by simp
  then have "distinct (map fst ([] @ kept vs))" by (simp add: kept_distinct)
  then have "fold (\<lambda>(k, v) d. dict_set d k v) (kept vs) [] = kept vs"
    using fold_dict_set_distinct [of "[]" "kept vs"] by simp
  then show ?thesis using assms(2) by (simp add: render_children_values)
qed

lemma render_children_error:
  "children_values fs s items p = Inl e \<Longrightarrow> render_children fs s items p acc = Inl e"
  by (simp add: render_children_values)

lemma kept_empty: "kept vs = [] \<longleftrightarrow> all_omitted vs"
  by (induction vs) (auto simp: kept_def all_omitted_def)

lemma render_entries_values:
  assumes "fields_items spec = Inr items" and "distinct (map fst items)"
  shows "render_entries fs s spec key i n results =
     (case entries_values fs s items key [i..<n] of
        Inl e \<Rightarrow> Inl e
      | Inr (vss, s') \<Rightarrow> Inr (results @ map PDict (filter (\<lambda>e. e \<noteq> []) (map kept vss)), s'))"
proof (induction "n - i" arbitrary: i s results)
  case 0
  then show ?case by (simp add: render_entries.simps)
next
  case (Suc m)
  then have lt: "i < n" and m: "m = n - Suc i" by auto
  have upt: "[i..<n] = i # [Suc i..<n]" using lt by (simp add: upt_conv_Cons)
  show ?case
  proof (cases "children_values fs s items (key @ ''_'' @ str_of_nat i)")
    case (Inl e)
    then show ?thesis using lt assms(1) upt
      by (simp add: render_entries.simps [of fs s spec key i] render_children_error)
  next
    case (Inr r)
    obtain vals s1 where r: "r = (vals, s1)" by (cases r)
    have rc: "render_children fs s items (key @ ''_'' @ str_of_nat i) [] = Inr (kept vals, s1)"
      using render_children_kept [OF assms(2)] Inr r by simp
    show ?thesis using lt assms(1) upt Inr r rc Suc.hyps(1) [OF m]
      by (auto simp: render_entries.simps [of fs s spec key i] split: sum.splits)
  qed
qed

subsection \<open>Unfolding the renderer\<close>

lemma render_field_started:
  assumes "render_field fs s name spec0 p = Inr r"
  obtains title vtype where
    "field_header name (normalize_spec spec0) = Inr title"
    "py_get (normalize_spec spec0) ''value_type'' (PStr ''string'') = Inr vtype"
proof (cases "field_header name (normalize_spec spec0)")
  case (Inl e)
  then show ?thesis using assms by (simp add: render_field.simps)
next
  case h: (Inr title)
  show ?thesis
  proof (cases "py_get (normalize_spec spec0) ''value_type'' (PStr ''string'')")
    case (Inl e)
    then show ?thesis using assms h by (simp add: render_field.simps)
  next
    case (Inr vtype)
    then show ?thesis using h that by blast
  qed
qed

lemma render_field_unfold:
  assumes "field_header name (normalize_spec spec0) = Inr title"
    and "py_get (normalize_spec spec0) ''value_type'' (PStr ''string'') = Inr vtype"
  shows "render_field fs s name spec0 p =
     (let spec = normalize_spec spec0; key = p @ ''_'' @ name in
      if vtype = PStr ''string'' then keyed s key (PStr (text_input s key))
      else if vtype = PStr ''integer'' then keyed s key (PInt (number_input_int s key))
      else if vtype = PStr ''float'' then keyed s key (PFloat (number_input_float s key))
      else if vtype = PStr ''controlled_vocab'' then
        (case py_get spec ''vocabulary_source'' PNone of
           Inl e \<Rightarrow> Inl e
         | Inr a \<Rightarrow>
        (case (if truthy a then Inr a else py_get spec ''vocabulary'' PNone) of
           Inl e \<Rightarrow> Inl e
         | Inr source \<Rightarrow>
        (case load_vocab fs source of
           Inl e \<Rightarrow> Inl e
         | Inr vocab \<Rightarrow> keyed s key (selectbox s vocab key))))
      else if vtype = PStr ''reference'' then
        (case py_get spec ''target'' PNone of
           Inl e \<Rightarrow> Inl e
         | Inr target \<Rightarrow>
        (case dirs_lookup target of
           Inl e \<Rightarrow> Inl e
         | Inr (Some directory) \<Rightarrow>
             (case list_yaml_ids fs directory of
                Inl e \<Rightarrow> Inl e
              | Inr ids \<Rightarrow>
                  keyed s key (selectbox s (PList (map PStr (NONE_CHOICE # ids))) key))
         | Inr None \<Rightarrow> keyed s key (PStr (text_input s key))))
      else if vtype = PStr ''object'' then
        (case fields_items spec of
           Inl e \<Rightarrow> Inl e
         | Inr items \<Rightarrow>
        (case render_children fs s items key [] of
           Inl e \<Rightarrow> Inl e
         | Inr (obj, s') \<Rightarrow> Inr (if obj = [] then PNone else PDict obj, s')))
      else if vtype = PStr ''list_of_objects'' then
        (case claim_key s key of
           Inl e \<Rightarrow> Inl e
         | Inr sa \<Rightarrow>
        (case claim_key sa (key @ ''_add'') of
           Inl e \<Rightarrow> Inl e
         | Inr sb \<Rightarrow>
        (let n = entry_count s key;
             s1 = sb\<lparr>entry_lists := (entry_lists s)(key \<mapsto> n)\<rparr>
         in case render_entries fs s1 spec key 0 n [] of
              Inl e \<Rightarrow> Inl e
            | Inr (results, s') \<Rightarrow> Inr (if results = [] then PNone else PList results, s'))))
      else Inr (PNone, s))"
  using assms by (simp add: render_field.simps [of fs s name spec0 p] Let_def)

subsection \<open>The session after a run\<close>

lemma frame_refl: "frame l s s"
  unfolding frame_def by (intro exI [of _ "entry_lists s"] exI [of _ "run_keys s"]) simp

lemma frame_claim: "claim_key s key = Inr s' \<Longrightarrow> frame l s s'"
  unfolding frame_def
  by (intro exI [of _ "entry_lists s"] exI [of _ "key # run_keys s"])
     (auto dest: claim_key_result)

lemma frame_keyed: "keyed s key v = Inr (v', s') \<Longrightarrow> frame l s s'"
  unfolding frame_def
  by (intro exI [of _ "entry_lists s"] exI [of _ "key # run_keys s"])
     (auto dest: keyed_result)

lemma frame_trans:
  assumes "frame l1 s s'" and "frame l2 s' s''" and "l \<le> l1" and "l \<le> l2"
  shows "frame l s s''"
proof -
  obtain m ks where a: "s' = s\<lparr>entry_lists := m, run_keys := ks\<rparr>"
    "\<forall>k. length k \<le> l1 \<longrightarrow> m k = entry_lists s k"
    using assms(1) by (auto simp: frame_def)
  obtain m' ks' where b: "s'' = s'\<lparr>entry_lists := m', run_keys := ks'\<rparr>"
    "\<forall>k. length k \<le> l2 \<longrightarrow> m' k = entry_lists s' k"
    using assms(2) by (auto simp: frame_def)
  show ?thesis unfolding frame_def
    by (intro exI [of _ m'] exI [of _ ks']) (use a b assms(3,4) in auto)
qed

lemma frame_mono:
  assumes "frame l1 s s'" and "l \<le> l1"
  shows "frame l s s'"
proof -
  obtain m ks where a: "s' = s\<lparr>entry_lists := m, run_keys := ks\<rparr>"
    "\<forall>k. length k \<le> l1 \<longrightarrow> m k = entry_lists s k"
    using assms(1) by (auto simp: frame_def)
  show ?thesis unfolding frame_def
    by (intro exI [of _ m] exI [of _ ks]) (use a assms(2) in auto)
qed

lemma frame_update:
  assumes "frame l s sb" and "l < length key"
  shows "frame l s (sb\<lparr>entry_lists := (entry_lists s)(key \<mapsto> n)\<rparr>)"
proof -
  obtain m ks where sb: "sb = s\<lparr>entry_lists := m, run_keys := ks\<rparr>"
    using assms(1) by (auto simp: frame_def)
  show ?thesis unfolding frame_def
    by (intro exI [of _ "(entry_lists s)(key \<mapsto> n)"] exI [of _ ks])
       (use assms(2) sb in auto)
qed

lemma frame_values:
  "frame l s s' \<Longrightarrow>
   text_values s' = text_values s \<and> int_values s' = int_values s \<and> float_values s' = float_values s
   \<and> choices s' = choices s \<and> multi_choices s' = multi_choices s \<and> clicked s' = clicked s"
  by (auto simp: frame_def)

lemma frame_all:
  "render_field fs s name spec0 p = Inr (v, s') \<Longrightarrow> frame (length p) s s'"
  "render_children fs1 s1 items p1 acc = Inr (d, s1') \<Longrightarrow> frame (length p1) s1 s1'"
  "render_entries fs2 s2 spec key i n results = Inr (r, s2') \<Longrightarrow> frame (length key) s2 s2'"
proof (induction fs s name spec0 p and fs1 s1 items p1 acc and fs2 s2 spec key i n results
       arbitrary: v s' and d s1' and r s2'
       rule: render_field_render_children_render_entries.induct)
  case (1 fs s name spec0 key_prefix)
  let ?spec = "normalize_spec spec0"
  let ?key = "key_prefix @ ''_'' @ name"
  from "1.prems" obtain title vtype where
    h: "field_header name ?spec = Inr title" and
    vt: "py_get ?spec ''value_type'' (PStr ''string'') = Inr vtype"
    by (rule render_field_started)
  note unfold = render_field_unfold [OF h vt, of fs s key_prefix]
  consider (obj) "vtype = PStr ''object''" | (lst) "vtype = PStr ''list_of_objects''"
    | (leaf) "vtype \<noteq> PStr ''object''" "vtype \<noteq> PStr ''list_of_objects''" by blast
  then show ?case
  proof cases
    case obj
    from "1.prems" obj obtain items obj' where
      fi: "fields_items ?spec = Inr items" and
      rc: "render_children fs s items ?key [] = Inr (obj', s')"
      unfolding unfold by (auto simp: Let_def split: sum.splits)
    have "frame (length ?key) s s'"
      using "1.IH"(1) [OF refl refl h vt _ _ _ _ _ obj fi rc] obj by simp
    then show ?thesis by (rule frame_mono) simp
  next
    case lst
    let ?n = "entry_count s ?key"
    from "1.prems" lst obtain sa sb res where
      ca: "claim_key s ?key = Inr sa" and
      cb: "claim_key sa (?key @ ''_add'') = Inr sb" and
      re: "render_entries fs (sb\<lparr>entry_lists := (entry_lists s)(?key \<mapsto> ?n)\<rparr>) ?spec ?key 0 ?n []
             = Inr (res, s')"
      unfolding unfold by (auto simp: Let_def split: sum.splits)
    let ?s1 = "sb\<lparr>entry_lists := (entry_lists s)(?key \<mapsto> ?n)\<rparr>"
    have b: "frame (length ?key) ?s1 s'"
      using "1.IH"(2) [OF refl refl h vt _ _ _ _ _ _ lst ca cb refl refl re] lst by simp
    have "frame (length key_prefix) s sb"
      by (rule frame_trans [OF frame_claim [OF ca, of "length key_prefix"]
            frame_claim [OF cb, of "length key_prefix"]]) simp_all
    then have a: "frame (length key_prefix) s ?s1" by (rule frame_update) simp
    show ?thesis by (rule frame_trans [OF a b]) simp_all
  next
    case leaf
    consider (scalar) "vtype = PStr ''string'' \<or> vtype = PStr ''integer'' \<or> vtype = PStr ''float''"
      | (vocab) "vtype = PStr ''controlled_vocab''"
      | (reference) "vtype = PStr ''reference''"
      | (other) "vtype \<noteq> PStr ''string''" "vtype \<noteq> PStr ''integer''" "vtype \<noteq> PStr ''float''"
          "vtype \<noteq> PStr ''controlled_vocab''" "vtype \<noteq> PStr ''reference''"
      by blast
    then show ?thesis
    proof cases
      case scalar
      then show ?thesis using "1.prems" unfolding unfold
        by (auto simp: Let_def dest: frame_keyed)
    next
      case vocab
      then show ?thesis using "1.prems" unfolding unfold
        by (auto simp: Let_def split: sum.splits dest: frame_keyed)
    next
      case reference
      then show ?thesis using "1.prems" unfolding unfold
        by (auto simp: Let_def split: sum.splits option.splits dest: frame_keyed)
    next
      case other
      then show ?thesis using "1.prems" leaf unfolding unfold by (simp add: Let_def frame_refl)
    qed
  qed
next
  case (2 fs s key_prefix acc)
  then show ?case by (simp add: frame_refl)
next
  case (3 fs s fname fspec rest key_prefix acc)
  from "3.prems" obtain val sm where
    rf: "render_field fs s fname fspec key_prefix = Inr (val, sm)" and
    rc: "render_children fs sm rest key_prefix (if omitted val then acc else dict_set acc fname val) = Inr (d, s1')"
    by (auto split: sum.splits)
  show ?case
    using frame_trans [OF "3.IH"(1) [OF rf] "3.IH"(2) [OF rf refl rc]] by simp
next
  case (4 fs s spec key i n results)
  show ?case
  proof (cases "i < n")
    case True
    from "4.prems" True obtain items entry sm where
      fi: "fields_items spec = Inr items" and
      rc: "render_children fs s items (key @ ''_'' @ str_of_nat i) [] = Inr (entry, sm)" and
      re: "render_entries fs sm spec key (Suc i) n (if entry = [] then results else results @ [PDict entry]) = Inr (r, s2')"
      by (auto simp: render_entries.simps [of fs s spec key i] split: sum.splits)
    have a: "frame (length (key @ ''_'' @ str_of_nat i)) s sm" by (rule "4.IH"(1) [OF True fi rc])
    have b: "frame (length key) sm s2'" by (rule "4.IH"(2) [OF True fi rc refl re])
    show ?thesis by (rule frame_trans [OF a b]) simp_all
  next
    case False
    then show ?thesis using "4.prems" by (simp add: render_entries.simps [of fs s spec key i] frame_refl)
  qed
qed

subsection \<open>A field's value in the collected mapping\<close>

lemma children_values_member:
  assumes "children_values fs s items p = Inr (vals, s')" and "(name, spec) \<in> set items"
  shows "\<exists>sa v sb. frame (length p) s sa \<and> render_field fs sa name spec p = Inr (v, sb)
           \<and> (name, v) \<in> set vals"
  using assms
proof (induction items arbitrary: s vals)
  case Nil
  then show ?case by simp
next
  case (Cons item items)
  obtain fname fspec where item: "item = (fname, fspec)" by (cases item)
  from Cons.prems(1) obtain val s1 rest where
    rf: "render_field fs s fname fspec p = Inr (val, s1)" and
    cv: "children_values fs s1 items p = Inr (rest, s')" and
    vals: "vals = (fname, val) # rest"
    unfolding item by (auto split: sum.splits)
  show ?case
  proof (cases "(name, spec) = (fname, fspec)")
    case True
    then show ?thesis using rf vals frame_refl by fastforce
  next
    case False
    then have "(name, spec) \<in> set items" using Cons.prems(2) item by auto
    then obtain sa v sb where
      f: "frame (length p) s1 sa" and r: "render_field fs sa name spec p = Inr (v, sb)"
      and m: "(name, v) \<in> set rest"
      using Cons.IH [OF cv] by blast
    have "frame (length p) s sa"
      by (rule frame_trans [OF frame_all(1) [OF rf] f]) simp_all
    then show ?thesis using r m vals by auto
  qed
qed

lemma kept_lookup:
  assumes "distinct (map fst vals)" and "(name, v) \<in> set vals" and "\<not> omitted v"
  shows "map_of (kept vals) name = Some v"
proof -
  have "(name, v) \<in> set (kept vals)" using assms(2,3) by (simp add: kept_def)
  moreover have "distinct (map fst (kept vals))" using assms(1) by (rule kept_distinct)
  ultimately show ?thesis by simp
qed

lemma number_kept:
  assumes "distinct (map fst items)" and "(name, spec) \<in> set items"
    and "render_children fs s items p [] = Inr (d, s')"
    and "\<And>sa. render_field fs sa name spec p = keyed sa (p @ ''_'' @ name) (w sa)"
    and "\<And>sa. frame (length p) s sa \<Longrightarrow> w sa = w s"
    and "\<not> omitted (w s)"
  shows "map_of d name = Some (w s)"
proof -
  obtain vals where cv: "children_values fs s items p = Inr (vals, s')"
    using assms(3) by (auto simp: render_children_values split: sum.splits)
  have d: "d = kept vals" using render_children_kept [OF assms(1) cv] assms(3) by simp
  obtain sa v sb where f: "frame (length p) s sa"
    and r: "render_field fs sa name spec p = Inr (v, sb)" and m: "(name, v) \<in> set vals"
    using children_values_member [OF cv assms(2)] by blast
  have "v = w sa" using r assms(4) [of sa] by (auto dest: keyed_result)
  then have v: "v = w s" using assms(5) [OF f] by simp
  have "distinct (map fst vals)" using children_values_keys [OF cv] assms(1) by simp
  then show ?thesis using kept_lookup [of vals name v] m v assms(6) d by simp
qed

lemma number_input_int_frame: "frame l s sa \<Longrightarrow> number_input_int sa key = number_input_int s key"
  using frame_values [of l s sa] by (simp add: number_input_int_def)

lemma number_input_float_frame: "frame l s sa \<Longrightarrow> number_input_float sa key = number_input_float s key"
  using frame_values [of l s sa] by (simp add: number_input_float_def)

subsection \<open>Counting entries\<close>

lemma entries_values_length:
  "entries_values fs s items key idxs = Inr (vss, s') \<Longrightarrow> length vss = length idxs"
  by (induction idxs arbitrary: s vss) (auto split: sum.splits prod.splits)

lemma kept_count:
  "length (filter (\<lambda>e. e \<noteq> []) (map kept vss)) = length vss - length (filter all_omitted vss)"
proof (induction vss)
  case Nil
  then show ?case by simp
next
  case (Cons vs vss)
  have "length (filter all_omitted vss) \<le> length vss" by simp
  then show ?case using Cons by (auto simp: kept_empty Suc_diff_le)
qed

lemma frame_key: "frame (length key) s s' \<Longrightarrow> entry_lists s' key = entry_lists s key"
  by (auto simp: frame_def)

subsection \<open>The required-field check\<close>

lemma missing_fields_of_mappings:
  "\<forall>(f, sp) \<in> set items. \<exists>kvs. sp = PDict kvs \<Longrightarrow>
   missing_fields items payload =
     Inr (map fst (filter (\<lambda>(f, sp). marked_required sp \<and> map_of payload f = None) items))"
proof (induction items)
  case Nil
  then show ?case by simp
next
  case (Cons item items)
  obtain f sp where item: "item = (f, sp)" by (cases item)
  obtain kvs where sp: "sp = PDict kvs" using Cons.prems item by auto
  have "missing_fields items payload =
     Inr (map fst (filter (\<lambda>(f, sp). marked_required sp \<and> map_of payload f = None) items))"
    using Cons by simp
  then show ?case by (simp add: item sp marked_required_def)
qed

lemma missing_fields_shorthand:
  "(f, PStr t) \<in> set items \<Longrightarrow> missing_fields items payload = Inl AttributeError"
proof (induction items)
  case Nil
  then show ?case by simp
next
  case (Cons item items)
  obtain g sp where item: "item = (g, sp)" by (cases item)
  show ?case
  proof (cases "py_get sp ''required'' PNone")
    case (Inl e)
    then have "e = AttributeError" by (cases sp) auto
    then show ?thesis using Inl by (simp add: item)
  next
    case (Inr r)
    then have "sp \<noteq> PStr t" by auto
    then have "missing_fields items payload = Inl AttributeError" using Cons item by auto
    then show ?thesis using Inr by (simp add: item)
  qed
qed

lemma save_entity_reports_missing:
  assumes "schema_items schema = Inr items"
    and "\<forall>(f, sp) \<in> set items. \<exists>kvs. sp = PDict kvs"
    and "(x, spx) \<in> set items" and "marked_required spx" and "map_of payload x = None"
  shows "\<exists>missing.
           save_entity entity_name directory schema payload
             = Inr (Failed (''Missing required fields: '' @ join '', '' missing))
         \<and> x \<in> set missing
         \<and> set missing = {f. \<exists>sp. (f, sp) \<in> set items \<and> marked_required sp \<and> map_of payload f = None}"
proof -
  define missing where
    "missing = map fst (filter (\<lambda>(f, sp). marked_required sp \<and> map_of payload f = None) items)"
  have mf: "missing_fields items payload = Inr missing"
    unfolding missing_def by (rule missing_fields_of_mappings [OF assms(2)])
  have s: "set missing = {f. \<exists>sp. (f, sp) \<in> set items \<and> marked_required sp \<and> map_of payload f = None}"
    unfolding missing_def by force
  have x: "x \<in> set missing" unfolding s using assms(3-5) by blast
  have ne: "missing \<noteq> []" using x by (cases missing) simp_all
  have "save_entity entity_name directory schema payload
          = Inr (Failed (''Missing required fields: '' @ join '', '' missing))"
    using assms(1) mf ne by (simp add: save_entity_def)
  then show ?thesis using x s by blast
qed

subsection \<open>The assertion form\<close>

lemma dict_set_member:
  "(q, x) \<in> set (dict_set d k v) \<Longrightarrow> (q, x) \<in> set d \<or> (q = k \<and> x = v)"
  by (induction d) (auto split: if_splits)

lemma collect_qualifiers_member:
  "(q, x) \<in> set (collect_qualifiers s Q acc) \<Longrightarrow>
   (q, x) \<in> set acc \<or>
   (\<exists>vocab. (q, vocab) \<in> set Q \<and> x = PList (multiselect s q vocab) \<and> multiselect s q vocab \<noteq> [])"
proof (induction Q arbitrary: acc)
  case Nil
  then show ?case by simp
next
  case (Cons item Q)
  obtain k vocab where item: "item = (k, vocab)" by (cases item)
  let ?acc = "if multiselect s k vocab \<noteq> [] then dict_set acc k (PList (multiselect s k vocab)) else acc"
  have "(q, x) \<in> set (collect_qualifiers s Q ?acc)"
    using Cons.prems by (simp add: item Let_def)
  then consider "(q, x) \<in> set ?acc"
    | "\<exists>vocab. (q, vocab) \<in> set Q \<and> x = PList (multiselect s q vocab) \<and> multiselect s q vocab \<noteq> []"
    using Cons.IH by blast
  then show ?case
  proof cases
    case 1
    then show ?thesis using item by (auto split: if_splits dest: dict_set_member)
  next
    case 2
    then show ?thesis by auto
  qed
qed

lemma collect_qualifiers_none:
  "\<forall>(q, vocab) \<in> set Q. multiselect s q vocab = [] \<Longrightarrow> collect_qualifiers s Q acc = acc"
  by (induction Q arbitrary: acc) (auto simp: Let_def)

lemma collect_qualifiers_fold:
  "collect_qualifiers s Q acc =
     fold (\<lambda>(k, v) d. dict_set d k v)
       (map (\<lambda>(q, vocab). (q, PList (multiselect s q vocab)))
          (filter (\<lambda>(q, vocab). multiselect s q vocab \<noteq> []) Q)) acc"
proof (induction Q arbitrary: acc)
  case Nil
  then show ?case by simp
next
  case (Cons item Q)
  obtain q vocab where item: "item = (q, vocab)" by (cases item)
  show ?case unfolding item by (simp add: Cons.IH Let_def)
qed

lemma collect_qualifiers_distinct:
  assumes "distinct (map fst Q)"
  shows "collect_qualifiers s Q [] =
     map (\<lambda>(q, vocab). (q, PList (multiselect s q vocab)))
       (filter (\<lambda>(q, vocab). multiselect s q vocab \<noteq> []) Q)"
proof -
  let ?sel = "map (\<lambda>(q, vocab). (q, PList (multiselect s q vocab)))
       (filter (\<lambda>(q, vocab). multiselect s q vocab \<noteq> []) Q)"
  have m: "map fst ?sel = map fst (filter (\<lambda>(q, vocab). multiselect s q vocab \<noteq> []) Q)"
    by (induction Q) auto
  have "distinct (map fst (filter (\<lambda>(q, vocab). multiselect s q vocab \<noteq> []) Q))"
    using assms by (rule distinct_map_filter)
  then have "distinct (map fst ?sel)" by (simp only: m)
  then have "fold (\<lambda>(k, v) d. dict_set d k v) ?sel [] = [] @ ?sel"
    using fold_dict_set_distinct [of "[]" ?sel] by simp
  then show ?thesis by (simp add: collect_qualifiers_fold)
qed

lemma collect_form_fields:
  "collect_form fs s Q d = Inr f \<Longrightarrow>
   \<exists>taxa sources materials.
     list_yaml_ids fs ''data/taxa'' = Inr taxa
   \<and> list_yaml_ids fs ''data/sources'' = Inr sources
   \<and> list_yaml_ids fs ''data/materials'' = Inr materials
   \<and> form_domain f = d
   \<and> form_taxon_id f = selectbox s (PList (map PStr (NONE_CHOICE # taxa))) ''taxon_id *''
   \<and> form_source_id f = selectbox s (PList (map PStr (NONE_CHOICE # sources))) ''source_id *''
   \<and> form_material_id f = selectbox s (PList (map PStr (NONE_CHOICE # materials))) ''material_id (optional)''
   \<and> form_qualifiers f = collect_qualifiers s Q []"
  by (auto simp: collect_form_def Let_def split: sum.splits option.splits)

lemma kb_domain: "choose_domain kb_files s = Inr (PStr ''morphology'')"
  by (simp add: choose_domain_def kb_files_def selectbox_def split: option.splits)

lemma kb_form:
  "collect_form kb_files chosen_session kb_qualifiers ''morphology''
    = Inr \<lparr>form_domain = ''morphology'', form_taxon_id = PStr ''Taxon_001'',
           form_source_id = PStr ''Source_001'', form_material_id = PStr NONE_CHOICE,
           form_feature = PStr ''cell'', form_trait_id = PStr ''cell_length'',
           form_value = PFloat 0, form_qualifiers = []\<rparr>"
  by (simp add: collect_form_def load_traits_def load_features_def load_yaml_def kb_files_def
        key_eq_def list_yaml_ids_def selectbox_def chosen_session_def blank_session_def
        value_input_def number_input_float_def kb_qualifiers_def multiselect_def NONE_CHOICE_def)

lemma kb_form_unchosen:
  "collect_form kb_files unchosen_session kb_qualifiers ''morphology''
    = Inr \<lparr>form_domain = ''morphology'', form_taxon_id = PStr NONE_CHOICE,
           form_source_id = PStr NONE_CHOICE, form_material_id = PStr NONE_CHOICE,
           form_feature = PStr ''cell'', form_trait_id = PStr ''cell_length'',
           form_value = PFloat 0, form_qualifiers = []\<rparr>"
  by (simp add: collect_form_def load_traits_def load_features_def load_yaml_def kb_files_def
        key_eq_def list_yaml_ids_def selectbox_def unchosen_session_def blank_session_def
        value_input_def number_input_float_def kb_qualifiers_def multiselect_def)

subsection \<open>What the renderer yields is well kept\<close>

lemma fields_ok_dict: "fields_ok items (PDict kvs) \<longleftrightarrow> kvs \<noteq> [] \<and> entries_ok items kvs"
  by (simp add: fields_ok.simps entries_ok_def)

lemma entries_ok_nil: "entries_ok items []"
  by (simp add: entries_ok_def)

lemma entries_ok_dict_set:
  assumes "entries_ok items acc" and "(k, fspec) \<in> set items" and "stored_ok fspec v"
  shows "entries_ok items (dict_set acc k v)"
  unfolding entries_ok_def
proof (intro ballI)
  fix e assume e: "e \<in> set (dict_set acc k v)"
  obtain q x where qx: "e = (q, x)" by (cases e)
  from e qx have "(q, x) \<in> set acc \<or> (q = k \<and> x = v)" by (auto dest: dict_set_member)
  then show "case e of (k, x) \<Rightarrow> \<exists>(k', fspec) \<in> set items. k' = k \<and> stored_ok fspec x"
  proof
    assume "(q, x) \<in> set acc"
    then show ?thesis using assms(1) qx by (auto simp: entries_ok_def)
  next
    assume "q = k \<and> x = v"
    then show ?thesis using assms(2,3) qx by auto
  qed
qed

lemma stored_ok_object:
  assumes "spec_vtype spec = Inr (PStr ''object'')"
    and "fields_items (normalize_spec spec) = Inr items"
  shows "stored_ok spec v = fields_ok items v"
  using assms by (simp add: stored_ok.simps [of spec v] items_of_def)

lemma stored_ok_list:
  assumes "spec_vtype spec = Inr (PStr ''list_of_objects'')"
    and "fields_items (normalize_spec spec) = Inr items"
  shows "stored_ok spec (PList es) \<longleftrightarrow> es \<noteq> [] \<and> (\<forall>e \<in> set es. fields_ok items e)"
  using assms by (simp add: stored_ok.simps [of spec "PList es"] items_of_def)

lemma stored_ok_leaf:
  assumes "spec_vtype spec \<noteq> Inr (PStr ''object'')"
    and "spec_vtype spec \<noteq> Inr (PStr ''list_of_objects'')"
  shows "stored_ok spec v = (\<not> omitted v)"
  using assms by (simp add: stored_ok.simps [of spec v])

lemma render_entries_some:
  assumes "render_entries fs s spec key 0 n [] = Inr (res, s')" and "res \<noteq> []"
  obtains items where "fields_items spec = Inr items"
proof (cases "fields_items spec")
  case (Inl e)
  then show ?thesis using assms by (simp add: render_entries.simps [of fs s spec key 0] split: if_splits)
next
  case (Inr items)
  then show ?thesis using that by blast
qed

lemma stored_all:
  "render_field fs s name spec0 p = Inr (v, s') \<Longrightarrow> \<not> omitted v \<Longrightarrow> stored_ok spec0 v"
  "render_children fs1 s1 items p1 acc = Inr (d, s1') \<Longrightarrow> set items \<subseteq> set all \<Longrightarrow>
     entries_ok all acc \<Longrightarrow> entries_ok all d"
  "render_entries fs2 s2 spec key i n results = Inr (r, s2') \<Longrightarrow> fields_items spec = Inr its \<Longrightarrow>
     \<forall>e \<in> set results. fields_ok its e \<Longrightarrow> \<forall>e \<in> set r. fields_ok its e"
proof (induction fs s name spec0 p and fs1 s1 items p1 acc and fs2 s2 spec key i n results
       arbitrary: v s' and d s1' all and r s2' its
       rule: render_field_render_children_render_entries.induct)
  case (1 fs s name spec0 key_prefix)
  let ?spec = "normalize_spec spec0"
  let ?key = "key_prefix @ ''_'' @ name"
  from "1.prems"(1) obtain title vtype where
    h: "field_header name ?spec = Inr title" and
    vt: "py_get ?spec ''value_type'' (PStr ''string'') = Inr vtype"
    by (rule render_field_started)
  note unfold = render_field_unfold [OF h vt, of fs s key_prefix]
  have sv: "spec_vtype spec0 = Inr vtype" using vt by (simp add: spec_vtype_def)
  consider (obj) "vtype = PStr ''object''" | (lst) "vtype = PStr ''list_of_objects''"
    | (leaf) "vtype \<noteq> PStr ''object''" "vtype \<noteq> PStr ''list_of_objects''" by blast
  then show ?case
  proof cases
    case obj
    from "1.prems"(1) obj obtain items obj' where
      fi: "fields_items ?spec = Inr items" and
      rc: "render_children fs s items ?key [] = Inr (obj', s')" and
      v: "v = (if obj' = [] then PNone else PDict obj')"
      unfolding unfold by (auto simp: Let_def split: sum.splits)
    have ne: "obj' \<noteq> []" using v "1.prems"(2) by (auto simp: omitted_def)
    have "entries_ok items obj'"
      using "1.IH"(1) [OF refl refl h vt _ _ _ _ _ obj fi rc subset_refl entries_ok_nil] obj by simp
    then have "fields_ok items v" using v ne by (simp add: fields_ok_dict)
    then show ?thesis using stored_ok_object [of spec0 items v] sv obj fi by simp
  next
    case lst
    let ?n = "entry_count s ?key"
    from "1.prems"(1) lst obtain sa sb res where
      ca: "claim_key s ?key = Inr sa" and
      cb: "claim_key sa (?key @ ''_add'') = Inr sb" and
      re: "render_entries fs (sb\<lparr>entry_lists := (entry_lists s)(?key \<mapsto> ?n)\<rparr>) ?spec ?key 0 ?n []
             = Inr (res, s')" and
      v: "v = (if res = [] then PNone else PList res)"
      unfolding unfold by (auto simp: Let_def split: sum.splits)
    have ne: "res \<noteq> []" using v "1.prems"(2) by (auto simp: omitted_def)
    obtain items where fi: "fields_items ?spec = Inr items"
      using render_entries_some [OF re ne] by blast
    have "\<forall>e \<in> set res. fields_ok items e"
      using "1.IH"(2) [OF refl refl h vt _ _ _ _ _ _ lst ca cb refl refl re fi] lst by simp
    then show ?thesis using stored_ok_list [of spec0 items res] sv lst fi v ne by simp
  next
    case leaf
    then show ?thesis using stored_ok_leaf [of spec0 v] sv "1.prems"(2) by simp
  qed
next
  case (2 fs s key_prefix acc)
  then show ?case by simp
next
  case (3 fs s fname fspec rest key_prefix acc)
  from "3.prems"(1) obtain val sm where
    rf: "render_field fs s fname fspec key_prefix = Inr (val, sm)" and
    rc: "render_children fs sm rest key_prefix (if omitted val then acc else dict_set acc fname val) = Inr (d, s1')"
    by (auto split: sum.splits)
  have mem: "(fname, fspec) \<in> set all" and sub: "set rest \<subseteq> set all"
    using "3.prems"(2) by auto
  have acc': "entries_ok all (if omitted val then acc else dict_set acc fname val)"
  proof (cases "omitted val")
    case True
    then show ?thesis using "3.prems"(3) by simp
  next
    case False
    then have "stored_ok fspec val" by (rule "3.IH"(1) [OF rf])
    then show ?thesis using False entries_ok_dict_set [OF "3.prems"(3) mem] by simp
  qed
  show ?case by (rule "3.IH"(2) [OF rf refl rc sub acc'])
next
  case (4 fs s spec key i n results)
  show ?case
  proof (cases "i < n")
    case True
    from "4.prems"(1) True "4.prems"(2) obtain entry sm where
      rc: "render_children fs s its (key @ ''_'' @ str_of_nat i) [] = Inr (entry, sm)" and
      re: "render_entries fs sm spec key (Suc i) n (if entry = [] then results else results @ [PDict entry]) = Inr (r, s2')"
      by (auto simp: render_entries.simps [of fs s spec key i] split: sum.splits)
    have "entries_ok its entry"
      by (rule "4.IH"(1) [OF True "4.prems"(2) rc subset_refl entries_ok_nil])
    then have "\<forall>e \<in> set (if entry = [] then results else results @ [PDict entry]). fields_ok its e"
      using "4.prems"(3) by (simp add: fields_ok_dict)
    then show ?thesis by (rule "4.IH"(2) [OF True "4.prems"(2) rc refl re "4.prems"(2)])
  next
    case False
    then show ?thesis using "4.prems" by (simp add: render_entries.simps [of fs s spec key i])
  qed
qed

subsection \<open>Saving an entity\<close>

lemma save_entity_saved:
  assumes "save_entity entity_name directory schema payload = Inr (Saved dir file_id rec)"
  shows "dir = directory \<and> rec = PDict payload \<and> truthy file_id
         \<and> map_of payload (lower entity_name @ ''_id'') = Some file_id"
proof -
  obtain items where si: "schema_items schema = Inr items"
    using assms by (cases "schema_items schema") (simp_all add: save_entity_def)
  obtain missing where mf: "missing_fields items payload = Inr missing"
    using assms si by (cases "missing_fields items payload") (simp_all add: save_entity_def)
  have "missing = []" using assms si mf by (auto simp: save_entity_def split: if_splits)
  then show ?thesis using assms si mf
    by (auto simp: save_entity_def Let_def split: if_splits option.splits)
qed

lemma filled_save:
  "entity_tab taxon_files filled_session ''Taxon'' ''ontology/core/taxonomy_assertion_schema.yaml''
     = Inr (Saved ''data/taxa'' (PStr ''Taxon_001'')
             (PDict [(''taxon_id'', PStr ''Taxon_001''), (''name'', PStr ''Amoeba proteus''),
                     (''origin'', PDict [(''country'', PStr ''Chile'')]),
                     (''synonyms'', PList [PDict [(''name'', PStr ''A'')]]),
                     (''count'', PInt 0)]),
            filled_session\<lparr>run_keys :=
              [''Taxon_count'', ''Taxon_synonyms_1_name'', ''Taxon_synonyms_0_name'',
               ''Taxon_synonyms_add'', ''Taxon_synonyms'', ''Taxon_origin_site'',
               ''Taxon_origin_country'', ''Taxon_notes'', ''Taxon_name'', ''Taxon_taxon_id'',
               ''Taxon_select'']\<rparr>)"
  by (simp add: entity_tab_def DIRS_def load_schema_def load_yaml_def taxon_files_def
        taxon_schema_def origin_spec_def synonyms_spec_def list_yaml_ids_def selectbox_def
        filled_session_def blank_session_def schema_items_def render_field.simps
        render_entries.simps field_header_def text_input_def number_input_int_def
        omitted_def button_def save_entity_def NEW_CHOICE_def fields_items_def entry_count_def
        str_of_nat.simps lower_def lower_char_def Let_def keyed_def claim_key_def)

subsection \<open>Two widgets on one key\<close>

lemma colliding_children_raise:
  "children_values no_files blank_session colliding_items ''Taxon_rec'' = Inl DuplicateElementKey"
  by (simp add: colliding_items_def render_field.simps field_header_def fields_items_def
        keyed_def claim_key_def blank_session_def text_input_def omitted_def)

lemma colliding_entries_raise:
  "entries_values no_files blank_session colliding_items ''Taxon_recs'' [0] = Inl DuplicateElementKey"
  by (simp add: colliding_items_def render_field.simps field_header_def fields_items_def
        keyed_def claim_key_def blank_session_def text_input_def omitted_def str_of_nat.simps)

subsection \<open>Normalisation of a field spec\<close>

text \<open>
  Claim C7. \<open>normalize_spec\<close> is idempotent on every value a schema file can hold for a
  field, a shorthand string or a mapping among them, and a shorthand string \<open>s\<close> becomes
  the mapping \<^verbatim>\<open>{"value_type": s}\<close>.
\<close>

theorem normalize_spec_idempotent:
  "normalize_spec (normalize_spec spec) = normalize_spec spec
   \<and> normalize_spec (PStr s) = PDict [(''value_type'', PStr s)]"
  by (cases spec) simp_all

subsection \<open>Numeric fields\<close>

text \<open>
  Claim C1 as the specification states it: an integer or float field in which the user
  entered nothing is omitted. It is not: with nothing entered the field \<^verbatim>\<open>count\<close> of
  type \<^verbatim>\<open>integer\<close> yields the number 0, which the collecting loop does not leave out,
  so the payload holds \<^verbatim>\<open>count: 0\<close>.
\<close>

theorem empty_integer_counterexample:
  "int_values blank_session ''Taxon_count'' = None
   \<and> render_field no_files blank_session ''count'' (PStr ''integer'') ''Taxon''
       = Inr (PInt 0, blank_session\<lparr>run_keys := [''Taxon_count'']\<rparr>)
   \<and> \<not> omitted (PInt 0)
   \<and> render_children no_files blank_session [(''count'', PStr ''integer'')] ''Taxon'' []
       = Inr ([(''count'', PInt 0)], blank_session\<lparr>run_keys := [''Taxon_count'']\<rparr>)"
  by (simp add: render_field.simps field_header_def number_input_int_def blank_session_def
        omitted_def keyed_def claim_key_def)

text \<open>
  Claim C1, amended. An integer or float field yields a number and is never left out.
  The field is a number input under its key: unless the key is already taken in the
  run (then the run stops), its value is the number the session holds for the key, an
  integer held beyond the bound of the input and a field in which nothing was entered
  giving the number zero. Whatever field set the field belongs to, the mapping
  collected from that field set holds this number under the field's name.
\<close>

theorem numeric_field_is_number:
  "(spec_vtype spec = Inr (PStr ''integer'') \<longrightarrow>
      render_field fs s name spec p
        = keyed s (p @ ''_'' @ name) (PInt (number_input_int s (p @ ''_'' @ name)))
    \<and> (p @ ''_'' @ name \<notin> set (run_keys s) \<longrightarrow>
          render_field fs s name spec p
            = Inr (PInt (number_input_int s (p @ ''_'' @ name)),
                   s\<lparr>run_keys := (p @ ''_'' @ name) # run_keys s\<rparr>))
    \<and> (\<forall>items d s'. distinct (map fst items) \<and> (name, spec) \<in> set items
          \<and> render_children fs s items p [] = Inr (d, s') \<longrightarrow>
          map_of d name = Some (PInt (number_input_int s (p @ ''_'' @ name)))))
   \<and> (spec_vtype spec = Inr (PStr ''float'') \<longrightarrow>
      render_field fs s name spec p
        = keyed s (p @ ''_'' @ name) (PFloat (number_input_float s (p @ ''_'' @ name)))
    \<and> (p @ ''_'' @ name \<notin> set (run_keys s) \<longrightarrow>
          render_field fs s name spec p
            = Inr (PFloat (number_input_float s (p @ ''_'' @ name)),
                   s\<lparr>run_keys := (p @ ''_'' @ name) # run_keys s\<rparr>))
    \<and> (\<forall>items d s'. distinct (map fst items) \<and> (name, spec) \<in> set items
          \<and> render_children fs s items p [] = Inr (d, s') \<longrightarrow>
          map_of d name = Some (PFloat (number_input_float s (p @ ''_'' @ name)))))
   \<and> (\<forall>n. int_values s key = Some n \<and> - INT_BOUND \<le> n \<and> n \<le> INT_BOUND \<longrightarrow>
          number_input_int s key = n)
   \<and> (\<forall>n. int_values s key = Some n \<and> \<not> (- INT_BOUND \<le> n \<and> n \<le> INT_BOUND) \<longrightarrow>
          number_input_int s key = 0)
   \<and> (int_values s key = None \<longrightarrow> number_input_int s key = 0)
   \<and> (\<forall>r. float_values s key = Some r \<longrightarrow> number_input_float s key = r)
   \<and> (float_values s key = None \<longrightarrow> number_input_float s key = 0)
   \<and> \<not> omitted (PInt n) \<and> \<not> omitted (PFloat r)"
proof -
  let ?key = "p @ ''_'' @ name"
  have int_kept: "map_of d name = Some (PInt (number_input_int s ?key))"
    if vt: "spec_vtype spec = Inr (PStr ''integer'')" and d: "distinct (map fst items)"
      and m: "(name, spec) \<in> set items" and rc: "render_children fs s items p [] = Inr (d, s')"
    for items d s'
    by (rule number_kept [OF d m rc, where w = "\<lambda>sa. PInt (number_input_int sa ?key)"])
       (simp_all add: render_integer [OF vt] number_input_int_frame omitted_def)
  have float_kept: "map_of d name = Some (PFloat (number_input_float s ?key))"
    if vt: "spec_vtype spec = Inr (PStr ''float'')" and d: "distinct (map fst items)"
      and m: "(name, spec) \<in> set items" and rc: "render_children fs s items p [] = Inr (d, s')"
    for items d s'
    by (rule number_kept [OF d m rc, where w = "\<lambda>sa. PFloat (number_input_float sa ?key)"])
       (simp_all add: render_float [OF vt] number_input_float_frame omitted_def)
  have held: "(\<forall>n. int_values s key = Some n \<and> - INT_BOUND \<le> n \<and> n \<le> INT_BOUND \<longrightarrow>
          number_input_int s key = n)
   \<and> (\<forall>n. int_values s key = Some n \<and> \<not> (- INT_BOUND \<le> n \<and> n \<le> INT_BOUND) \<longrightarrow>
          number_input_int s key = 0)
   \<and> (int_values s key = None \<longrightarrow> number_input_int s key = 0)
   \<and> (\<forall>r. float_values s key = Some r \<longrightarrow> number_input_float s key = r)
   \<and> (float_values s key = None \<longrightarrow> number_input_float s key = 0)
   \<and> \<not> omitted (PInt n) \<and> \<not> omitted (PFloat r)"
    by (auto simp: number_input_int_def number_input_float_def omitted_def)
  show ?thesis
    using int_kept float_kept held
    by (simp add: render_integer render_float keyed_fresh) blast
qed

theorem numeric_field_is_number_witness:
  "spec_vtype (PStr ''integer'') = Inr (PStr ''integer'')
   \<and> ''Taxon'' @ ''_'' @ ''count'' \<notin> set (run_keys counted_session)
   \<and> int_values counted_session ''Taxon_count'' = Some 7
   \<and> render_field no_files counted_session ''count'' (PStr ''integer'') ''Taxon''
        = Inr (PInt 7, counted_session\<lparr>run_keys := [''Taxon_count'']\<rparr>)
   \<and> render_children no_files counted_session [(''count'', PStr ''integer'')] ''Taxon'' []
        = Inr ([(''count'', PInt 7)], counted_session\<lparr>run_keys := [''Taxon_count'']\<rparr>)
   \<and> map_of [(''count'', PInt 7)] ''count'' = Some (PInt 7)
   \<and> int_values blank_session ''Taxon_count'' = None
   \<and> render_field no_files blank_session ''count'' (PStr ''integer'') ''Taxon''
        = Inr (PInt 0, blank_session\<lparr>run_keys := [''Taxon_count'']\<rparr>)
   \<and> spec_vtype (PDict [(''value_type'', PStr ''float'')]) = Inr (PStr ''float'')
   \<and> float_values blank_session ''Taxon_size'' = None
   \<and> render_field no_files blank_session ''size'' (PDict [(''value_type'', PStr ''float'')]) ''Taxon''
        = Inr (PFloat 0, blank_session\<lparr>run_keys := [''Taxon_size'']\<rparr>)"
proof -
  have b: "- INT_BOUND \<le> 7 \<and> 7 \<le> INT_BOUND" by (simp add: INT_BOUND_def)
  have rc: "render_children no_files counted_session [(''count'', PStr ''integer'')] ''Taxon'' []
        = Inr ([(''count'', PInt 7)], counted_session\<lparr>run_keys := [''Taxon_count'']\<rparr>)"
    by (simp add: render_field.simps field_header_def number_input_int_def counted_session_def
          blank_session_def omitted_def keyed_def claim_key_def INT_BOUND_def Let_def)
  show ?thesis
    using numeric_field_is_number [of "PStr ''integer''" no_files counted_session "''count''" "''Taxon''"
            "''Taxon_count''" 7 0]
          numeric_field_is_number [of "PStr ''integer''" no_files blank_session "''count''" "''Taxon''"
            "''Taxon_count''" 0 0]
          numeric_field_is_number [of "PDict [(''value_type'', PStr ''float'')]" no_files blank_session
            "''size''" "''Taxon''" "''Taxon_size''" 0 0]
          b rc
    by (simp add: spec_vtype_def blank_session_def counted_session_def keyed_def claim_key_def
          number_input_int_def number_input_float_def INT_BOUND_def)
qed

subsection \<open>Vocabulary resolution\<close>

text \<open>
  Claim C8 as the specification states it: \<open>load_vocab\<close> never fails and always returns
  a sequence of strings. It does neither: an existing file that holds a mapping is
  returned as that mapping, an existing file that does not parse makes the call raise
  the parser's error, and a string the system refuses as a path makes the existence
  test itself raise.
\<close>

theorem load_vocab_counterexample:
  "load_vocab vocab_files (PStr ''ontology/habitat.yaml'') = Inr (PDict [(''marine'', PInt 1)])
   \<and> \<not> is_str_seq (PDict [(''marine'', PInt 1)])
   \<and> load_vocab vocab_files (PStr ''ontology/broken.yaml'') = Inl YAMLError
   \<and> load_vocab vocab_files (PStr (replicate 300 (CHR ''a''))) = Inl OSError"
  by (simp add: vocab_files_def load_yaml_def)

text \<open>
  Claim C8, amended. An inline sequence is returned unchanged. For a string, the path
  is first tested for existence: when the test raises, the call raises that error;
  when the path exists, the call gives exactly what loading it gives, the parsed
  content of whatever shape or the error of the load; when the path is missing, the
  call gives the empty sequence. Any input that is neither a list nor a string gives
  the empty sequence. The call fails only when the existence test or that load fails.
\<close>

theorem load_vocab_cases:
  "load_vocab fs (PList xs) = Inr (PList xs)
   \<and> (path_exists fs p = Inl e' \<longrightarrow> load_vocab fs (PStr p) = Inl e')
   \<and> (path_exists fs p = Inr True \<longrightarrow> load_vocab fs (PStr p) = load_yaml fs p)
   \<and> (path_exists fs p = Inr False \<longrightarrow> load_vocab fs (PStr p) = Inr (PList []))
   \<and> ((\<forall>ys. source \<noteq> PList ys) \<and> (\<forall>q. source \<noteq> PStr q) \<longrightarrow> load_vocab fs source = Inr (PList []))
   \<and> (load_vocab fs source = Inl e \<longrightarrow>
        (\<exists>q. source = PStr q \<and>
           (path_exists fs q = Inl e \<or> (path_exists fs q = Inr True \<and> load_yaml fs q = Inl e))))"
  by (cases source) (auto split: sum.splits if_splits)

theorem load_vocab_cases_witness:
  "path_exists vocab_files ''ontology/habitat.yaml'' = Inr True
   \<and> load_vocab vocab_files (PStr ''ontology/habitat.yaml'') = Inr (PDict [(''marine'', PInt 1)])
   \<and> path_exists vocab_files ''ontology/absent.yaml'' = Inr False
   \<and> load_vocab vocab_files (PStr ''ontology/absent.yaml'') = Inr (PList [])
   \<and> path_exists vocab_files (replicate 300 (CHR ''a'')) = Inl OSError
   \<and> load_vocab vocab_files (PStr (replicate 300 (CHR ''a''))) = Inl OSError
   \<and> load_vocab vocab_files (PInt 7) = Inr (PList [])
   \<and> load_vocab vocab_files (PStr ''ontology/broken.yaml'') = Inl YAMLError
   \<and> load_yaml vocab_files ''ontology/broken.yaml'' = Inl YAMLError"
  using load_vocab_cases [of vocab_files "[]" "''ontology/habitat.yaml''" OSError "PInt 7" YAMLError]
        load_vocab_cases [of vocab_files "[]" "''ontology/absent.yaml''" OSError "PStr ''ontology/broken.yaml''" YAMLError]
        load_vocab_cases [of vocab_files "[]" "replicate 300 (CHR ''a'')" OSError "PInt 7" YAMLError]
  by (simp add: vocab_files_def load_yaml_def)

subsection \<open>Reference fields\<close>

text \<open>
  Claim C9. For a reference field whose \<^verbatim>\<open>target\<close> is one of the names of \<open>DIRS\<close>, the
  field is a select box, under the field's key, over the sentinel followed by the
  identifiers of that collection: once the identifiers are listed and the key is
  taken, its value is one of these options, and the sentinel while nothing was chosen.
  For any other target that can be looked up (a name that is not a key, \<^verbatim>\<open>None\<close>, a
  number) the field is a free text input under the field's key, and its value the
  text typed. A target that is a list or a dict is no entity-type name; for it the
  membership test raises.
\<close>

theorem reference_field_choice:
  assumes "spec_vtype spec = Inr (PStr ''reference'')"
    and "py_get (normalize_spec spec) ''target'' PNone = Inr target"
  shows "(\<forall>t directory. target = PStr t \<and> map_of DIRS t = Some directory \<longrightarrow>
            render_field fs s name spec p =
              (case list_yaml_ids fs directory of
                 Inl e \<Rightarrow> Inl e
               | Inr ids \<Rightarrow>
                   keyed s (p @ ''_'' @ name)
                     (selectbox s (PList (map PStr (NONE_CHOICE # ids))) (p @ ''_'' @ name)))
          \<and> (\<forall>ids. list_yaml_ids fs directory = Inr ids \<and> p @ ''_'' @ name \<notin> set (run_keys s) \<longrightarrow>
                (\<exists>v. render_field fs s name spec p
                       = Inr (v, s\<lparr>run_keys := (p @ ''_'' @ name) # run_keys s\<rparr>)
                   \<and> v = selectbox s (PList (map PStr (NONE_CHOICE # ids))) (p @ ''_'' @ name)
                   \<and> v \<in> PStr ` set (NONE_CHOICE # ids)
                   \<and> (choices s (p @ ''_'' @ name) = None \<longrightarrow> v = PStr NONE_CHOICE))))
       \<and> (hashable target \<and> (\<forall>t. target = PStr t \<longrightarrow> map_of DIRS t = None) \<longrightarrow>
            render_field fs s name spec p
              = keyed s (p @ ''_'' @ name) (PStr (text_input s (p @ ''_'' @ name)))
          \<and> (p @ ''_'' @ name \<notin> set (run_keys s) \<longrightarrow>
                render_field fs s name spec p
                  = Inr (PStr (text_input s (p @ ''_'' @ name)),
                         s\<lparr>run_keys := (p @ ''_'' @ name) # run_keys s\<rparr>)))"
proof -
  let ?key = "p @ ''_'' @ name"
  obtain title where h: "field_header name (normalize_spec spec) = Inr title"
    using header_ok [OF assms(1)] by blast
  have vt: "py_get (normalize_spec spec) ''value_type'' (PStr ''string'') = Inr (PStr ''reference'')"
    using assms(1) by (simp add: spec_vtype_def)
  have known: "render_field fs s name spec p =
              (case list_yaml_ids fs directory of
                 Inl e \<Rightarrow> Inl e
               | Inr ids \<Rightarrow> keyed s ?key (selectbox s (PList (map PStr (NONE_CHOICE # ids))) ?key))"
    if "target = PStr t" "map_of DIRS t = Some directory" for t directory
    using that h vt assms(2) by (simp add: render_field.simps Let_def split: sum.splits)
  have unknown: "render_field fs s name spec p = keyed s ?key (PStr (text_input s ?key))"
    if "hashable target" "\<forall>t. target = PStr t \<longrightarrow> map_of DIRS t = None"
    using that h vt assms(2) by (cases target) (simp_all add: render_field.simps Let_def)
  have mem: "selectbox s (PList (map PStr (x # xs))) k \<in> PStr ` set (x # xs)" for x xs k
    using selectbox_member [of "PList (map PStr (x # xs))" s k] by auto
  have dflt: "choices s k = None \<Longrightarrow> selectbox s (PList (map PStr (x # xs))) k = PStr x" for x xs k
    by (simp add: selectbox_default)
  show ?thesis
  proof (intro conjI allI impI)
    fix t directory
    assume "target = PStr t \<and> map_of DIRS t = Some directory"
    then show "render_field fs s name spec p =
              (case list_yaml_ids fs directory of
                 Inl e \<Rightarrow> Inl e
               | Inr ids \<Rightarrow> keyed s ?key (selectbox s (PList (map PStr (NONE_CHOICE # ids))) ?key))"
      using known by blast
  next
    fix t directory ids
    assume a: "target = PStr t \<and> map_of DIRS t = Some directory"
      and b: "list_yaml_ids fs directory = Inr ids \<and> ?key \<notin> set (run_keys s)"
    let ?v = "selectbox s (PList (map PStr (NONE_CHOICE # ids))) ?key"
    have rf: "render_field fs s name spec p = Inr (?v, s\<lparr>run_keys := ?key # run_keys s\<rparr>)"
      using known [of t directory] a b by (simp add: keyed_fresh)
    have m: "?v \<in> PStr ` set (NONE_CHOICE # ids)" by (rule mem)
    have df: "choices s ?key = None \<longrightarrow> ?v = PStr NONE_CHOICE" using dflt by blast
    show "\<exists>v. render_field fs s name spec p = Inr (v, s\<lparr>run_keys := ?key # run_keys s\<rparr>)
                   \<and> v = selectbox s (PList (map PStr (NONE_CHOICE # ids))) ?key
                   \<and> v \<in> PStr ` set (NONE_CHOICE # ids)
                   \<and> (choices s ?key = None \<longrightarrow> v = PStr NONE_CHOICE)"
      using rf m df by (intro exI [of _ ?v] conjI) (assumption | rule refl)+
  next
    assume "hashable target \<and> (\<forall>t. target = PStr t \<longrightarrow> map_of DIRS t = None)"
    then show "render_field fs s name spec p = keyed s ?key (PStr (text_input s ?key))"
      using unknown by blast
  next
    assume "hashable target \<and> (\<forall>t. target = PStr t \<longrightarrow> map_of DIRS t = None)"
      and "?key \<notin> set (run_keys s)"
    then show "render_field fs s name spec p
                  = Inr (PStr (text_input s ?key), s\<lparr>run_keys := ?key # run_keys s\<rparr>)"
      using unknown by (simp add: keyed_fresh)
  qed
qed

theorem reference_field_choice_witness:
  "spec_vtype (PDict [(''value_type'', PStr ''reference''), (''target'', PStr ''Taxon'')]) = Inr (PStr ''reference'')
   \<and> map_of DIRS ''Taxon'' = Some ''data/taxa''
   \<and> list_yaml_ids taxa_files ''data/taxa'' = Inr [''Taxon_001'', ''Taxon_002'']
   \<and> ''Taxon'' @ ''_'' @ ''parent'' \<notin> set (run_keys blank_session)
   \<and> render_field taxa_files blank_session ''parent''
        (PDict [(''value_type'', PStr ''reference''), (''target'', PStr ''Taxon'')]) ''Taxon''
      = Inr (PStr NONE_CHOICE, blank_session\<lparr>run_keys := [''Taxon_parent'']\<rparr>)
   \<and> spec_vtype (PDict [(''value_type'', PStr ''reference''), (''target'', PStr ''Genus'')]) = Inr (PStr ''reference'')
   \<and> map_of DIRS ''Genus'' = None
   \<and> ''Taxon'' @ ''_'' @ ''parent'' \<notin> set (run_keys typed_session)
   \<and> render_field taxa_files typed_session ''parent''
        (PDict [(''value_type'', PStr ''reference''), (''target'', PStr ''Genus'')]) ''Taxon''
      = Inr (PStr ''Amoebozoa'', typed_session\<lparr>run_keys := [''Taxon_parent'']\<rparr>)"
  using reference_field_choice [of "PDict [(''value_type'', PStr ''reference''), (''target'', PStr ''Taxon'')]"
          "PStr ''Taxon''" taxa_files blank_session "''parent''" "''Taxon''"]
        reference_field_choice [of "PDict [(''value_type'', PStr ''reference''), (''target'', PStr ''Genus'')]"
          "PStr ''Genus''" taxa_files typed_session "''parent''" "''Taxon''"]
  by (simp add: spec_vtype_def DIRS_def blank_session_def typed_session_def list_yaml_ids_def
        taxa_files_def text_input_def keyed_def claim_key_def selectbox_def)

subsection \<open>Object fields\<close>

text \<open>
  Claim C3. A child is left out when its value is \<^verbatim>\<open>None\<close> or the empty string, the two
  values the collecting loop skips. For an object field whose children yield \<open>vals\<close>
  (in the order of the schema): when every child is left out the field yields
  \<^verbatim>\<open>None\<close>, which its own caller leaves out in turn; otherwise it yields the mapping of
  exactly the children that are not left out, in order. The result is never the empty
  mapping, and every child of the schema has been run. That the children yield their
  values means that none of them raised; in particular no two widgets below the field
  came to the same key, which stops a run (\<open>colliding_children_raise\<close>).
\<close>

theorem object_field_omitted_or_mapping:
  assumes "spec_vtype spec = Inr (PStr ''object'')"
    and "fields_items (normalize_spec spec) = Inr items"
    and "distinct (map fst items)"
    and "children_values fs s items (p @ ''_'' @ name) = Inr (vals, s')"
  shows "\<exists>v. render_field fs s name spec p = Inr (v, s')
           \<and> v = (if all_omitted vals then PNone else PDict (kept vals))
           \<and> v \<noteq> PDict []
           \<and> map fst vals = map fst items"
proof -
  obtain title where h: "field_header name (normalize_spec spec) = Inr title"
    using header_ok [OF assms(1)] by blast
  have vt: "py_get (normalize_spec spec) ''value_type'' (PStr ''string'') = Inr (PStr ''object'')"
    using assms(1) by (simp add: spec_vtype_def)
  have rc: "render_children fs s items (p @ ''_'' @ name) [] = Inr (kept vals, s')"
    by (rule render_children_kept [OF assms(3) assms(4)])
  have "render_field fs s name spec p = Inr (if kept vals = [] then PNone else PDict (kept vals), s')"
    using h vt assms(2) rc by (simp add: render_field.simps Let_def)
  then show ?thesis
    using children_values_keys [OF assms(4)] by (auto simp: kept_empty)
qed

theorem object_field_omitted_or_mapping_witness:
  "spec_vtype origin_spec = Inr (PStr ''object'')
   \<and> fields_items (normalize_spec origin_spec) = Inr [(''country'', PStr ''string''), (''site'', PStr ''string'')]
   \<and> children_values no_files origin_session [(''country'', PStr ''string''), (''site'', PStr ''string'')] (''Taxon'' @ ''_'' @ ''origin'')
        = Inr ([(''country'', PStr ''Chile''), (''site'', PStr [])],
               origin_session\<lparr>run_keys := [''Taxon_origin_site'', ''Taxon_origin_country'']\<rparr>)
   \<and> render_field no_files origin_session ''origin'' origin_spec ''Taxon''
        = Inr (PDict [(''country'', PStr ''Chile'')],
               origin_session\<lparr>run_keys := [''Taxon_origin_site'', ''Taxon_origin_country'']\<rparr>)
   \<and> children_values no_files blank_session [(''country'', PStr ''string''), (''site'', PStr ''string'')] (''Taxon'' @ ''_'' @ ''origin'')
        = Inr ([(''country'', PStr []), (''site'', PStr [])],
               blank_session\<lparr>run_keys := [''Taxon_origin_site'', ''Taxon_origin_country'']\<rparr>)
   \<and> render_field no_files blank_session ''origin'' origin_spec ''Taxon''
        = Inr (PNone, blank_session\<lparr>run_keys := [''Taxon_origin_site'', ''Taxon_origin_country'']\<rparr>)"
proof -
  let ?items = "[(''country'', PStr ''string''), (''site'', PStr ''string'')]"
  have vt: "spec_vtype origin_spec = Inr (PStr ''object'')"
    by (simp add: spec_vtype_def origin_spec_def)
  have fi: "fields_items (normalize_spec origin_spec) = Inr ?items"
    by (simp add: fields_items_def origin_spec_def)
  have d: "distinct (map fst ?items)" by simp
  have c1: "children_values no_files origin_session ?items (''Taxon'' @ ''_'' @ ''origin'')
        = Inr ([(''country'', PStr ''Chile''), (''site'', PStr [])],
               origin_session\<lparr>run_keys := [''Taxon_origin_site'', ''Taxon_origin_country'']\<rparr>)"
    by (simp add: render_field.simps field_header_def text_input_def origin_session_def
          blank_session_def keyed_def claim_key_def Let_def)
  have c2: "children_values no_files blank_session ?items (''Taxon'' @ ''_'' @ ''origin'')
        = Inr ([(''country'', PStr []), (''site'', PStr [])],
               blank_session\<lparr>run_keys := [''Taxon_origin_site'', ''Taxon_origin_country'']\<rparr>)"
    by (simp add: render_field.simps field_header_def text_input_def blank_session_def
          keyed_def claim_key_def Let_def)
  show ?thesis
    using object_field_omitted_or_mapping [OF vt fi d c1] object_field_omitted_or_mapping [OF vt fi d c2]
      vt fi c1 c2
    by (simp add: kept_def all_omitted_def omitted_def)
qed

subsection \<open>List-of-objects fields\<close>

text \<open>
  Claim C2. For a list field under the key \<open>key\<close>, let \<open>n\<close> be the length of the list the
  session keeps for that key once the add button has been taken into account; it is
  the length the session holds after the run. The field takes its key and the key of
  its add button, neither of which may be taken already. The entries yield \<open>vss\<close>, one
  list of child values per index below \<open>n\<close>; that they do means that no child raised,
  in particular that no two widgets below the field came to the same key, which stops a
  run (\<open>colliding_entries_raise\<close>). The field
  emits the mappings of the children not left out, for the entries that have any: at
  most \<open>n\<close> entries, and exactly \<open>n\<close> minus the number of entries all of whose children
  are left out. When no entry remains the field yields \<^verbatim>\<open>None\<close>.
\<close>

theorem list_field_entry_count:
  assumes "spec_vtype spec = Inr (PStr ''list_of_objects'')"
    and "fields_items (normalize_spec spec) = Inr items"
    and "distinct (map fst items)"
    and "key = p @ ''_'' @ name"
    and "n = entry_count s key"
    and "key \<notin> set (run_keys s)" and "key @ ''_add'' \<notin> set (run_keys s)"
    and "entries_values fs
           (s\<lparr>run_keys := (key @ ''_add'') # key # run_keys s,
              entry_lists := (entry_lists s)(key \<mapsto> n)\<rparr>)
           items key [0..<n] = Inr (vss, s')"
  shows "\<exists>results. render_field fs s name spec p = Inr (if results = [] then PNone else PList results, s')
           \<and> results = map PDict (filter (\<lambda>e. e \<noteq> []) (map kept vss))
           \<and> entry_lists s' key = Some n
           \<and> length vss = n
           \<and> length results \<le> n
           \<and> length results = n - length (filter all_omitted vss)"
proof -
  let ?s1 = "s\<lparr>run_keys := (key @ ''_add'') # key # run_keys s,
               entry_lists := (entry_lists s)(key \<mapsto> n)\<rparr>"
  let ?results = "map PDict (filter (\<lambda>e. e \<noteq> []) (map kept vss))"
  obtain title where h: "field_header name (normalize_spec spec) = Inr title"
    using header_ok [OF assms(1)] by blast
  have vt: "py_get (normalize_spec spec) ''value_type'' (PStr ''string'') = Inr (PStr ''list_of_objects'')"
    using assms(1) by (simp add: spec_vtype_def)
  have ca: "claim_key s key = Inr (s\<lparr>run_keys := key # run_keys s\<rparr>)"
    using assms(6) by (simp add: claim_key_def)
  have cb: "claim_key (s\<lparr>run_keys := key # run_keys s\<rparr>) (key @ ''_add'')
              = Inr (s\<lparr>run_keys := (key @ ''_add'') # key # run_keys s\<rparr>)"
    using assms(7) by (simp add: claim_key_def)
  have re: "render_entries fs ?s1 (normalize_spec spec) key 0 n [] = Inr (?results, s')"
    using render_entries_values [OF assms(2) assms(3), of fs ?s1 key 0 n "[]"] assms(8) by simp
  have rf: "render_field fs s name spec p = Inr (if ?results = [] then PNone else PList ?results, s')"
    unfolding render_field_unfold [OF h vt]
    using ca cb re assms(4) assms(5) by (simp add: Let_def)
  have "frame (length key) ?s1 s'" by (rule frame_all(3) [OF re])
  then have el: "entry_lists s' key = Some n" using frame_key [of key ?s1 s'] by simp
  have len: "length vss = n" using entries_values_length [OF assms(8)] by simp
  have cnt: "length ?results = n - length (filter all_omitted vss)"
    using kept_count [of vss] len by simp
  show ?thesis using rf el len cnt by (intro exI [of _ ?results]) simp
qed

theorem list_field_entry_count_witness:
  "spec_vtype synonyms_spec = Inr (PStr ''list_of_objects'')
   \<and> fields_items (normalize_spec synonyms_spec) = Inr [(''name'', PStr ''string'')]
   \<and> entry_count synonyms_session ''Taxon_synonyms'' = 2
   \<and> ''Taxon_synonyms'' \<notin> set (run_keys synonyms_session)
   \<and> ''Taxon_synonyms'' @ ''_add'' \<notin> set (run_keys synonyms_session)
   \<and> entries_values no_files
         (synonyms_session\<lparr>run_keys := [''Taxon_synonyms_add'', ''Taxon_synonyms'']\<rparr>)
         [(''name'', PStr ''string'')] ''Taxon_synonyms'' [0..<2]
        = Inr ([[(''name'', PStr ''A'')], [(''name'', PStr [])]],
               synonyms_session\<lparr>run_keys := [''Taxon_synonyms_1_name'', ''Taxon_synonyms_0_name'',
                                              ''Taxon_synonyms_add'', ''Taxon_synonyms'']\<rparr>)
   \<and> render_field no_files synonyms_session ''synonyms'' synonyms_spec ''Taxon''
        = Inr (PList [PDict [(''name'', PStr ''A'')]],
               synonyms_session\<lparr>run_keys := [''Taxon_synonyms_1_name'', ''Taxon_synonyms_0_name'',
                                              ''Taxon_synonyms_add'', ''Taxon_synonyms'']\<rparr>)"
proof -
  let ?items = "[(''name'', PStr ''string'')]"
  let ?s1 = "synonyms_session\<lparr>run_keys := [''Taxon_synonyms_add'', ''Taxon_synonyms'']\<rparr>"
  let ?s2 = "synonyms_session\<lparr>run_keys := [''Taxon_synonyms_1_name'', ''Taxon_synonyms_0_name'',
                                              ''Taxon_synonyms_add'', ''Taxon_synonyms'']\<rparr>"
  have vt: "spec_vtype synonyms_spec = Inr (PStr ''list_of_objects'')"
    by (simp add: spec_vtype_def synonyms_spec_def)
  have fi: "fields_items (normalize_spec synonyms_spec) = Inr ?items"
    by (simp add: fields_items_def synonyms_spec_def)
  have d: "distinct (map fst ?items)" by simp
  have k: "''Taxon_synonyms'' = ''Taxon'' @ ''_'' @ ''synonyms''" by simp
  have n: "2 = entry_count synonyms_session ''Taxon_synonyms''"
    by (simp add: entry_count_def synonyms_session_def blank_session_def button_def)
  have f1: "''Taxon_synonyms'' \<notin> set (run_keys synonyms_session)"
    by (simp add: synonyms_session_def blank_session_def)
  have f2: "''Taxon_synonyms'' @ ''_add'' \<notin> set (run_keys synonyms_session)"
    by (simp add: synonyms_session_def blank_session_def)
  have same: "synonyms_session\<lparr>run_keys := (''Taxon_synonyms'' @ ''_add'') # ''Taxon_synonyms'' # run_keys synonyms_session,
                 entry_lists := (entry_lists synonyms_session)(''Taxon_synonyms'' \<mapsto> 2)\<rparr>
              = ?s1"
    by (simp add: synonyms_session_def blank_session_def)
  have upt: "[0..<2] = [0, Suc 0]" by (simp add: upt_rec)
  have ev: "entries_values no_files ?s1 ?items ''Taxon_synonyms'' [0..<2]
        = Inr ([[(''name'', PStr ''A'')], [(''name'', PStr [])]], ?s2)"
    unfolding upt
    by (simp add: render_field.simps field_header_def text_input_def synonyms_session_def
          blank_session_def str_of_nat.simps keyed_def claim_key_def Let_def)
  have ev': "entries_values no_files
        (synonyms_session\<lparr>run_keys := (''Taxon_synonyms'' @ ''_add'') # ''Taxon_synonyms'' # run_keys synonyms_session,
                 entry_lists := (entry_lists synonyms_session)(''Taxon_synonyms'' \<mapsto> 2)\<rparr>)
        ?items ''Taxon_synonyms'' [0..<2]
        = Inr ([[(''name'', PStr ''A'')], [(''name'', PStr [])]], ?s2)"
    using ev same by simp
  show ?thesis
    using list_field_entry_count [OF vt fi d k n f1 f2 ev'] vt fi n f1 f2 ev
    by (simp add: kept_def omitted_def)
qed

subsection \<open>Saving an entity: required fields\<close>

text \<open>
  Claim C4. The claim holds for a schema whose field specs are all mappings
  (\<open>save_entity_reports_missing\<close>). It fails as soon as the schema has one field in the
  shorthand form that \<open>normalize_spec\<close> exists to allow: the check calls \<^verbatim>\<open>get\<close> on the
  spec as the file gives it, a string has no such method, and the save raises
  AttributeError instead of reporting the missing field \<^verbatim>\<open>name\<close>. The same schema
  with the identifier spelled out reports it.
\<close>

theorem shorthand_schema_save_raises:
  "entity_tab schema_files save_pressed ''Taxon'' ''ontology/core/shorthand.yaml'' = Inl AttributeError
   \<and> entity_tab schema_files save_pressed ''Taxon'' ''ontology/core/spelled.yaml''
        = Inr (Failed ''Missing required fields: name'',
               save_pressed\<lparr>run_keys := [''Taxon_name'', ''Taxon_taxon_id'', ''Taxon_select'']\<rparr>)"
  by (simp add: entity_tab_def DIRS_def load_schema_def load_yaml_def schema_files_def
        shorthand_schema_def spelled_schema_def list_yaml_ids_def selectbox_def save_pressed_def
        blank_session_def schema_items_def render_field.simps field_header_def text_input_def
        omitted_def button_def save_entity_def NEW_CHOICE_def keyed_def claim_key_def)

subsection \<open>Saving an assertion: cross references\<close>

text \<open>
  Claim C5. In a run that reaches the save button with the button pressed (a domain
  was chosen and the form was read without an exception), where \<^verbatim>\<open>taxon_id\<close> and
  \<^verbatim>\<open>source_id\<close> are what the two select boxes over the sentinel and the listed
  identifiers return: when either is the sentinel, the
  run ends with the error message and without a write; otherwise its one effect is
  the write of a record to the file named after \<^verbatim>\<open>taxon_id\<close> in the directory of the
  domain, holding \<^verbatim>\<open>taxon_id\<close> and a list of exactly one assertion set, which holds
  the source and a list of exactly one assertion. The earlier copy of the tab behaves
  the same once its extra load of the domain's schema has succeeded.
\<close>

theorem assertion_save_cross_references:
  assumes "choose_domain fs s = Inr (PStr d)"
    and "collect_form fs s Q d = Inr f"
    and "button s ''Save assertion file''"
  shows "(\<exists>taxa sources.
            list_yaml_ids fs ''data/taxa'' = Inr taxa
          \<and> list_yaml_ids fs ''data/sources'' = Inr sources
          \<and> form_taxon_id f = selectbox s (PList (map PStr (NONE_CHOICE # taxa))) ''taxon_id *''
          \<and> form_source_id f = selectbox s (PList (map PStr (NONE_CHOICE # sources))) ''source_id *'')
       \<and> (form_taxon_id f = PStr NONE_CHOICE \<or> form_source_id f = PStr NONE_CHOICE \<longrightarrow>
             assertions_tab fs s Q = Inr (Failed ''taxon_id and source_id required''))
       \<and> (form_taxon_id f \<noteq> PStr NONE_CHOICE \<and> form_source_id f \<noteq> PStr NONE_CHOICE \<longrightarrow>
             (\<exists>aset. assertions_tab fs s Q
                       = Inr (Saved (''data/assertions/'' @ d) (form_taxon_id f)
                               (PDict [(''taxon_id'', form_taxon_id f), (''assertion_sets'', PList [PDict aset])]))
                  \<and> map_of aset ''source_id'' = Some (form_source_id f)
                  \<and> map_of aset ''assertions'' = Some (PList [assertion_of f])))
       \<and> (\<forall>schema. load_schema fs (''ontology/core/'' @ d @ ''_assertion_schema.yaml'') = Inr schema \<longrightarrow>
             assertions_tab7 fs s Q = assertions_tab fs s Q)"
proof -
  have tab: "assertions_tab fs s Q = Inr (save_assertion f)"
    using assms by (simp add: assertions_tab_def assertions_from_def)
  have tab7: "assertions_tab7 fs s Q = assertions_tab fs s Q"
    if "load_schema fs (''ontology/core/'' @ d @ ''_assertion_schema.yaml'') = Inr schema" for schema
    using that assms(1) by (simp add: assertions_tab7_def assertions_tab_def domain_text_def)
  have failed: "save_assertion f = Failed ''taxon_id and source_id required''"
    if "form_taxon_id f = PStr NONE_CHOICE \<or> form_source_id f = PStr NONE_CHOICE"
    using that by (auto simp: save_assertion_def)
  have saved: "\<exists>aset. save_assertion f
                       = Saved (''data/assertions/'' @ d) (form_taxon_id f)
                               (PDict [(''taxon_id'', form_taxon_id f), (''assertion_sets'', PList [PDict aset])])
                  \<and> map_of aset ''source_id'' = Some (form_source_id f)
                  \<and> map_of aset ''assertions'' = Some (PList [assertion_of f])"
    if "form_taxon_id f \<noteq> PStr NONE_CHOICE" "form_source_id f \<noteq> PStr NONE_CHOICE"
    using that collect_form_fields [OF assms(2)] by (auto simp: save_assertion_def Let_def)
  have ids: "\<exists>taxa sources.
            list_yaml_ids fs ''data/taxa'' = Inr taxa
          \<and> list_yaml_ids fs ''data/sources'' = Inr sources
          \<and> form_taxon_id f = selectbox s (PList (map PStr (NONE_CHOICE # taxa))) ''taxon_id *''
          \<and> form_source_id f = selectbox s (PList (map PStr (NONE_CHOICE # sources))) ''source_id *''"
    using collect_form_fields [OF assms(2)] by blast
  show ?thesis
    using tab tab7 failed saved ids by simp
qed

theorem assertion_save_cross_references_witness:
  "choose_domain kb_files chosen_session = Inr (PStr ''morphology'')
   \<and> button chosen_session ''Save assertion file''
   \<and> assertions_tab kb_files chosen_session kb_qualifiers
       = Inr (Saved ''data/assertions/morphology'' (PStr ''Taxon_001'')
               (PDict [(''taxon_id'', PStr ''Taxon_001''),
                       (''assertion_sets'', PList [PDict
                          [(''source_id'', PStr ''Source_001''),
                           (''assertions'', PList [PDict
                              [(''feature'', PStr ''cell''), (''trait'', PStr ''cell_length''),
                               (''value'', PFloat 0), (''qualifiers'', PNone)]])]])]))
   \<and> button unchosen_session ''Save assertion file''
   \<and> assertions_tab kb_files unchosen_session kb_qualifiers = Inr (Failed ''taxon_id and source_id required'')"
proof -
  have b1: "button chosen_session ''Save assertion file''"
    by (simp add: button_def chosen_session_def blank_session_def)
  have b2: "button unchosen_session ''Save assertion file''"
    by (simp add: button_def unchosen_session_def blank_session_def)
  have ne: "PStr ''Taxon_001'' \<noteq> PStr NONE_CHOICE" "PStr ''Source_001'' \<noteq> PStr NONE_CHOICE"
    by (simp_all add: NONE_CHOICE_def)
  show ?thesis
    using assertion_save_cross_references [OF kb_domain kb_form b1]
          assertion_save_cross_references [OF kb_domain kb_form_unchosen b2]
          kb_domain b1 b2 kb_form kb_form_unchosen ne
    by (auto simp: assertions_tab_def assertions_from_def save_assertion_def assertion_of_def py_or_def)
qed

subsection \<open>Qualifiers of an assertion\<close>

text \<open>
  Claim C6 as the specification states it: when no qualifier has a selection, the
  assertion written has no \<^verbatim>\<open>qualifiers\<close> entry. It has one: the assertion is built with
  \<^verbatim>\<open>"qualifiers": qualifiers or None\<close>, so with nothing selected the record written
  holds the key \<^verbatim>\<open>qualifiers\<close> with the value \<^verbatim>\<open>None\<close>.
\<close>

theorem empty_qualifiers_counterexample:
  "form_qualifiers \<lparr>form_domain = ''morphology'', form_taxon_id = PStr ''Taxon_001'',
           form_source_id = PStr ''Source_001'', form_material_id = PStr NONE_CHOICE,
           form_feature = PStr ''cell'', form_trait_id = PStr ''cell_length'',
           form_value = PFloat 0, form_qualifiers = []\<rparr> = []
   \<and> assertions_tab kb_files chosen_session kb_qualifiers
       = Inr (Saved ''data/assertions/morphology'' (PStr ''Taxon_001'')
               (PDict [(''taxon_id'', PStr ''Taxon_001''),
                       (''assertion_sets'', PList [PDict
                          [(''source_id'', PStr ''Source_001''),
                           (''assertions'', PList [PDict
                              [(''feature'', PStr ''cell''), (''trait'', PStr ''cell_length''),
                               (''value'', PFloat 0), (''qualifiers'', PNone)]])]])]))
   \<and> py_subscript (PDict [(''feature'', PStr ''cell''), (''trait'', PStr ''cell_length''),
                          (''value'', PFloat 0), (''qualifiers'', PNone)]) ''qualifiers'' = Inr PNone"
  using kb_domain [of chosen_session] kb_form
  by (simp add: assertions_tab_def assertions_from_def save_assertion_def assertion_of_def py_or_def
        button_def chosen_session_def blank_session_def NONE_CHOICE_def)

text \<open>
  Claim C6, amended. The qualifiers mapping holds exactly the qualifiers with a
  selection that is not empty, each with its selection and in the order of the
  vocabularies; with no selection at all it is empty. The assertion always has the entry \<^verbatim>\<open>qualifiers\<close>: the mapping when it is not
  empty, and \<^verbatim>\<open>None\<close> when it is, never the empty mapping.
\<close>

theorem qualifiers_entry:
  "(\<forall>q x. (q, x) \<in> set (collect_qualifiers s Q []) \<longrightarrow>
        (\<exists>vocab. (q, vocab) \<in> set Q \<and> x = PList (multiselect s q vocab) \<and> multiselect s q vocab \<noteq> []))
   \<and> ((\<forall>(q, vocab) \<in> set Q. multiselect s q vocab = []) \<longrightarrow> collect_qualifiers s Q [] = [])
   \<and> (distinct (map fst Q) \<longrightarrow>
         collect_qualifiers s Q [] =
           map (\<lambda>(q, vocab). (q, PList (multiselect s q vocab)))
             (filter (\<lambda>(q, vocab). multiselect s q vocab \<noteq> []) Q))
   \<and> (collect_form fs s Q d = Inr f \<longrightarrow> form_qualifiers f = collect_qualifiers s Q [])
   \<and> py_subscript (assertion_of f) ''qualifiers''
        = Inr (if form_qualifiers f = [] then PNone else PDict (form_qualifiers f))"
proof -
  have a: "\<exists>vocab. (q, vocab) \<in> set Q \<and> x = PList (multiselect s q vocab) \<and> multiselect s q vocab \<noteq> []"
    if "(q, x) \<in> set (collect_qualifiers s Q [])" for q x
    using collect_qualifiers_member [OF that] by simp
  have b: "collect_qualifiers s Q [] = []" if "\<forall>(q, vocab) \<in> set Q. multiselect s q vocab = []"
    using that by (rule collect_qualifiers_none)
  have c: "form_qualifiers f = collect_qualifiers s Q []" if "collect_form fs s Q d = Inr f"
    using collect_form_fields [OF that] by blast
  have d: "py_subscript (assertion_of f) ''qualifiers''
        = Inr (if form_qualifiers f = [] then PNone else PDict (form_qualifiers f))"
    by (simp add: assertion_of_def py_or_def)
  have e: "collect_qualifiers s Q [] =
           map (\<lambda>(q, vocab). (q, PList (multiselect s q vocab)))
             (filter (\<lambda>(q, vocab). multiselect s q vocab \<noteq> []) Q)"
    if "distinct (map fst Q)"
    using that by (rule collect_qualifiers_distinct)
  show ?thesis using a b c d e by blast
qed

theorem qualifiers_entry_witness:
  "multiselect chosen_session ''certainty'' (PList [PStr ''high'', PStr ''low'']) = []
   \<and> collect_qualifiers chosen_session kb_qualifiers [] = []
   \<and> collect_form kb_files chosen_session kb_qualifiers ''morphology''
        = Inr \<lparr>form_domain = ''morphology'', form_taxon_id = PStr ''Taxon_001'',
           form_source_id = PStr ''Source_001'', form_material_id = PStr NONE_CHOICE,
           form_feature = PStr ''cell'', form_trait_id = PStr ''cell_length'',
           form_value = PFloat 0, form_qualifiers = []\<rparr>
   \<and> py_subscript (assertion_of \<lparr>form_domain = ''morphology'', form_taxon_id = PStr ''Taxon_001'',
           form_source_id = PStr ''Source_001'', form_material_id = PStr NONE_CHOICE,
           form_feature = PStr ''cell'', form_trait_id = PStr ''cell_length'',
           form_value = PFloat 0, form_qualifiers = []\<rparr>) ''qualifiers'' = Inr PNone
   \<and> (''certainty'', PList [PStr ''high'']) \<in> set (collect_qualifiers certain_session kb_qualifiers [])
   \<and> multiselect certain_session ''certainty'' (PList [PStr ''high'', PStr ''low'']) = [PStr ''high'']"
proof -
  let ?f = "\<lparr>form_domain = ''morphology'', form_taxon_id = PStr ''Taxon_001'',
           form_source_id = PStr ''Source_001'', form_material_id = PStr NONE_CHOICE,
           form_feature = PStr ''cell'', form_trait_id = PStr ''cell_length'',
           form_value = PFloat 0, form_qualifiers = []\<rparr>"
  have none: "\<forall>(q, vocab) \<in> set kb_qualifiers. multiselect chosen_session q vocab = []"
    by (simp add: kb_qualifiers_def multiselect_def chosen_session_def blank_session_def)
  have some: "(''certainty'', PList [PStr ''high'']) \<in> set (collect_qualifiers certain_session kb_qualifiers [])"
    by (simp add: kb_qualifiers_def multiselect_def certain_session_def chosen_session_def blank_session_def)
  note t1 = qualifiers_entry [of chosen_session kb_qualifiers kb_files "''morphology''" ?f]
  note t2 = qualifiers_entry [of certain_session kb_qualifiers kb_files "''morphology''" ?f]
  have w2: "collect_qualifiers chosen_session kb_qualifiers [] = []"
    using t1 none by blast
  have w4: "py_subscript (assertion_of ?f) ''qualifiers'' = Inr PNone"
    using t1 by simp
  have "\<exists>vocab. (''certainty'', vocab) \<in> set kb_qualifiers
          \<and> PList [PStr ''high''] = PList (multiselect certain_session ''certainty'' vocab)"
    using t2 some by blast
  then have w6: "multiselect certain_session ''certainty'' (PList [PStr ''high'', PStr ''low'']) = [PStr ''high'']"
    by (simp add: kb_qualifiers_def)
  have w1: "multiselect chosen_session ''certainty'' (PList [PStr ''high'', PStr ''low'']) = []"
    using none by (simp add: kb_qualifiers_def)
  show ?thesis
    using w1 w2 kb_form w4 some w6 by blast
qed

subsection \<open>The records an entity tab saves\<close>

text \<open>
  Claim C10. Whenever the entity tab writes a record, the record is a mapping that is
  well kept for the field set of the schema: it is not empty; each of its entries
  belongs to a field of the schema; at every depth no stored value is \<^verbatim>\<open>None\<close> or the
  empty string, the value of an object field is a mapping that is not empty, and the
  value of a list field is a list, not empty, of mappings that are not empty. The
  value the file is named after is the record's identifier entry, and it is true.
\<close>

theorem saved_record_well_kept:
  assumes "entity_tab fs s entity_name schema_path = Inr (Saved directory file_id rec, s')"
  shows "\<exists>doc schema items payload.
           load_schema fs schema_path = Inr doc
         \<and> py_subscript doc entity_name = Inr schema
         \<and> schema_items schema = Inr items
         \<and> rec = PDict payload
         \<and> fields_ok items rec
         \<and> truthy file_id
         \<and> map_of payload (lower entity_name @ ''_id'') = Some file_id"
proof -
  obtain dir where dir: "map_of DIRS entity_name = Some dir"
    using assms by (cases "map_of DIRS entity_name") (simp_all add: entity_tab_def)
  obtain doc where doc: "load_schema fs schema_path = Inr doc"
    using assms dir by (cases "load_schema fs schema_path") (simp_all add: entity_tab_def)
  obtain schema where schema: "py_subscript doc entity_name = Inr schema"
    using assms dir doc by (cases "py_subscript doc entity_name") (simp_all add: entity_tab_def)
  obtain ids where ids: "list_yaml_ids fs dir = Inr ids"
    using assms dir doc schema by (cases "list_yaml_ids fs dir") (simp_all add: entity_tab_def)
  let ?sel = "selectbox s (PList (map PStr (NEW_CHOICE # ids))) (entity_name @ ''_select'')"
  obtain selected s0 where k: "keyed s (entity_name @ ''_select'') ?sel = Inr (selected, s0)"
    using assms dir doc schema ids
    by (cases "keyed s (entity_name @ ''_select'') ?sel") (auto simp: entity_tab_def)
  have new: "selected = PStr NEW_CHOICE"
  proof (rule ccontr)
    assume "selected \<noteq> PStr NEW_CHOICE"
    then show False using assms dir doc schema ids k
      by (auto simp: entity_tab_def split: pyval.splits sum.splits)
  qed
  obtain items where items: "schema_items schema = Inr items"
    using assms dir doc schema ids k new
    by (cases "schema_items schema") (simp_all add: entity_tab_def)
  obtain payload sm where rc: "render_children fs s0 items entity_name [] = Inr (payload, sm)"
    using assms dir doc schema ids k new items
    by (cases "render_children fs s0 items entity_name []") (auto simp: entity_tab_def)
  have se: "save_entity entity_name dir schema payload = Inr (Saved directory file_id rec)"
    using assms dir doc schema ids k new items rc
    by (auto simp: entity_tab_def split: if_splits sum.splits)
  note sv = save_entity_saved [OF se]
  have ok: "entries_ok items payload"
    by (rule stored_all(2) [OF rc subset_refl entries_ok_nil])
  have "payload \<noteq> []" using sv by auto
  then have "fields_ok items rec" using ok sv by (simp add: fields_ok_dict)
  then show ?thesis using doc schema items sv by blast
qed

theorem saved_record_well_kept_witness:
  "entity_tab taxon_files filled_session ''Taxon'' ''ontology/core/taxonomy_assertion_schema.yaml''
     = Inr (Saved ''data/taxa'' (PStr ''Taxon_001'')
             (PDict [(''taxon_id'', PStr ''Taxon_001''), (''name'', PStr ''Amoeba proteus''),
                     (''origin'', PDict [(''country'', PStr ''Chile'')]),
                     (''synonyms'', PList [PDict [(''name'', PStr ''A'')]]),
                     (''count'', PInt 0)]),
            filled_session\<lparr>run_keys :=
              [''Taxon_count'', ''Taxon_synonyms_1_name'', ''Taxon_synonyms_0_name'',
               ''Taxon_synonyms_add'', ''Taxon_synonyms'', ''Taxon_origin_site'',
               ''Taxon_origin_country'', ''Taxon_notes'', ''Taxon_name'', ''Taxon_taxon_id'',
               ''Taxon_select'']\<rparr>)
   \<and> (\<exists>items. schema_items (PDict [(''fields'', PDict
                   [(''taxon_id'', PDict [(''value_type'', PStr ''string''), (''required'', PBool True)]),
                    (''name'', PDict [(''value_type'', PStr ''string''), (''required'', PBool True)]),
                    (''notes'', PDict [(''value_type'', PStr ''string'')]),
                    (''origin'', origin_spec),
                    (''synonyms'', synonyms_spec),
                    (''count'', PDict [(''value_type'', PStr ''integer'')])])]) = Inr items
         \<and> fields_ok items
             (PDict [(''taxon_id'', PStr ''Taxon_001''), (''name'', PStr ''Amoeba proteus''),
                     (''origin'', PDict [(''country'', PStr ''Chile'')]),
                     (''synonyms'', PList [PDict [(''name'', PStr ''A'')]]),
                     (''count'', PInt 0)]))"
  using saved_record_well_kept [OF filled_save] filled_save
  by (auto simp: load_schema_def load_yaml_def taxon_files_def taxon_schema_def)

end
